theory Spec2Isabelle
  imports Complex_Main "HOL-Library.Sublist"
begin

section \<open>Time values of the host language\<close>

text \<open>
  The date module computes with the \<^verbatim>\<open>Date\<close> objects of its host language. A
  \<^verbatim>\<open>Date\<close> holds one time value: an integral number of milliseconds since the epoch,
  or NaN. A number that may be NaN is an \<^typ>\<open>int option\<close> here, \<^term>\<open>None\<close> being NaN.
  The functions of this section are the abstract operations of the language standard
  (Day, TimeWithinDay, DaysInYear, DayFromYear, YearFromTime, InLeapYear, MonthFromTime,
  DateFromTime, MakeDay, MakeDate, TimeClip) that \<^verbatim>\<open>getUTCFullYear\<close>,
  \<^verbatim>\<open>setUTCFullYear\<close> and \<^verbatim>\<open>Date.UTC\<close> are made of.

  A number that a caller passes (a bound, a count of years or of days) is any number of
  the host, a fraction as well as a whole number. It is a rational here (\<^typ>\<open>rat\<close>):
  the doubles of the host without their rounding, and without the infinities. On whole
  numbers below \<open>2 ^ 53\<close> in magnitude, as all time values are, the host's arithmetic
  is exact and the two agree.
\<close>

definition msPerDay :: int where
  "msPerDay = 86400000"

definition Day :: "int \<Rightarrow> int" where
  "Day t = t div msPerDay"

definition TimeWithinDay :: "int \<Rightarrow> int" where
  "TimeWithinDay t = t mod msPerDay"

definition DaysInYear :: "int \<Rightarrow> int" where
  "DaysInYear y =
    (if y mod 4 \<noteq> 0 then 365
     else if y mod 100 \<noteq> 0 then 366
     else if y mod 400 \<noteq> 0 then 365
     else 366)"

definition DayFromYear :: "int \<Rightarrow> int" where
  "DayFromYear y =
    365 * (y - 1970) + (y - 1969) div 4 - (y - 1901) div 100 + (y - 1601) div 400"

text \<open>
  The standard defines YearFromTime(t) as the largest year y with
  TimeFromYear(y) \<open>\<le>\<close> t. \<open>year_search\<close> finds it by walking up from a year that is
  not too late; \<open>YearFromDay_spec\<close> and \<open>year_unique\<close> below show that the result is
  the year of the standard.
\<close>

function year_search :: "int \<Rightarrow> int \<Rightarrow> int" where
  "year_search d y = (if DayFromYear (y + 1) \<le> d then year_search d (y + 1) else y)"
  by pat_completeness auto
termination
proof (relation "measure (\<lambda>(d, y). nat (d + 1 - DayFromYear (y + 1)))")
  show "wf (measure (\<lambda>(d, y). nat (d + 1 - DayFromYear (y + 1))))"
    by simp
next
  fix d y :: int
  assume le: "DayFromYear (y + 1) \<le> d"
  have a: "(y + 1 - 1969) div 4 \<le> (y + 1 + 1 - 1969) div 4"
    by (rule zdiv_mono1) simp_all
  have "(y + 1 + 1 - 1901) div 100 \<le> (y + 1 - 1901 + 100) div 100"
    by (rule zdiv_mono1) simp_all
  then have b: "(y + 1 + 1 - 1901) div 100 \<le> (y + 1 - 1901) div 100 + 1"
    by simp
  have c: "(y + 1 - 1601) div 400 \<le> (y + 1 + 1 - 1601) div 400"
    by (rule zdiv_mono1) simp_all
  have "DayFromYear (y + 1) < DayFromYear (y + 1 + 1)"
    unfolding DayFromYear_def using a b c by simp
  then show "((d, y + 1), (d, y)) \<in> measure (\<lambda>(d, y). nat (d + 1 - DayFromYear (y + 1)))"
    using le by simp
qed

declare year_search.simps [simp del]

definition YearFromDay :: "int \<Rightarrow> int" where
  "YearFromDay d = year_search d (1970 + (if 0 \<le> d then d div 366 else d div 365))"

definition YearFromTime :: "int \<Rightarrow> int" where
  "YearFromTime t = YearFromDay (Day t)"

definition InLeapYear :: "int \<Rightarrow> int" where
  "InLeapYear t = (if DaysInYear (YearFromTime t) = 366 then 1 else 0)"

definition DayWithinYear :: "int \<Rightarrow> int" where
  "DayWithinYear t = Day t - DayFromYear (YearFromTime t)"

definition MonthFromTime :: "int \<Rightarrow> int" where
  "MonthFromTime t =
    (let d = DayWithinYear t; l = InLeapYear t in
     if d < 31 then 0
     else if d < 59 + l then 1
     else if d < 90 + l then 2
     else if d < 120 + l then 3
     else if d < 151 + l then 4
     else if d < 181 + l then 5
     else if d < 212 + l then 6
     else if d < 243 + l then 7
     else if d < 273 + l then 8
     else if d < 304 + l then 9
     else if d < 334 + l then 10
     else 11)"

definition DateFromTime :: "int \<Rightarrow> int" where
  "DateFromTime t =
    (let d = DayWithinYear t; l = InLeapYear t; m = MonthFromTime t in
     if m = 0 then d + 1
     else if m = 1 then d - 30
     else if m = 2 then d - 58 - l
     else if m = 3 then d - 89 - l
     else if m = 4 then d - 119 - l
     else if m = 5 then d - 150 - l
     else if m = 6 then d - 180 - l
     else if m = 7 then d - 211 - l
     else if m = 8 then d - 242 - l
     else if m = 9 then d - 272 - l
     else if m = 10 then d - 303 - l
     else d - 333 - l)"

text \<open>The day number, within a year of leap flag \<open>l\<close>, of the first day of month \<open>mn\<close>.\<close>

definition DayFromMonth :: "int \<Rightarrow> int \<Rightarrow> int" where
  "DayFromMonth mn l =
    (if mn = 0 then 0
     else if mn = 1 then 31
     else if mn = 2 then 59 + l
     else if mn = 3 then 90 + l
     else if mn = 4 then 120 + l
     else if mn = 5 then 151 + l
     else if mn = 6 then 181 + l
     else if mn = 7 then 212 + l
     else if mn = 8 then 243 + l
     else if mn = 9 then 273 + l
     else if mn = 10 then 304 + l
     else 334 + l)"

definition MakeDay :: "int \<Rightarrow> int \<Rightarrow> int \<Rightarrow> int" where
  "MakeDay year month date =
    (let ym = year + month div 12;
         mn = month mod 12;
         l = (if DaysInYear ym = 366 then 1 else 0)
     in DayFromYear ym + DayFromMonth mn l + date - 1)"

definition MakeDate :: "int \<Rightarrow> int \<Rightarrow> int" where
  "MakeDate day time = day * msPerDay + time"

definition TimeClip :: "int \<Rightarrow> int option" where
  "TimeClip time = (if \<bar>time\<bar> > 8640000000000000 then None else Some time)"

text \<open>
  A number becomes a time value by \<open>TimeClip\<close> too: out of range it is NaN, within
  the range its fraction is cut off, towards zero (\<open>ToIntegerOrInfinity\<close>).
\<close>

definition ToIntegerOrInfinity :: "rat \<Rightarrow> int" where
  "ToIntegerOrInfinity n = (if n < 0 then \<lceil>n\<rceil> else \<lfloor>n\<rfloor>)"

definition TimeClip_number :: "rat \<Rightarrow> int option" where
  "TimeClip_number time =
    (if \<bar>time\<bar> > 8640000000000000 then None else Some (ToIntegerOrInfinity time))"

text \<open>\<^verbatim>\<open>Date.UTC(year, month, date)\<close>: a year from 0 to 99 means 1900 + year.\<close>

definition Date_UTC :: "int \<Rightarrow> int \<Rightarrow> int \<Rightarrow> int option" where
  "Date_UTC year month date =
    (let yr = (if 0 \<le> year \<and> year \<le> 99 then 1900 + year else year)
     in TimeClip (MakeDate (MakeDay yr month date) 0))"

text \<open>
  \<^verbatim>\<open>d.setUTCFullYear(year)\<close> of a date whose time value is \<open>tv\<close>: the new time
  value, which the call both stores in \<open>d\<close> and returns. The month, the day of the month
  and the time within the day are kept; a day the target month does not have runs over
  into the next month (29 February becomes 1 March).
\<close>

definition setUTCFullYear :: "int option \<Rightarrow> int \<Rightarrow> int option" where
  "setUTCFullYear tv year =
    (let t = (case tv of None \<Rightarrow> 0 | Some t \<Rightarrow> t);
         m = MonthFromTime t;
         dt = DateFromTime t
     in TimeClip (MakeDate (MakeDay year m dt) (TimeWithinDay t)))"

text \<open>The comparison \<^verbatim>\<open>a < b\<close> of two numbers: false when either is NaN.\<close>

definition js_lt :: "int option \<Rightarrow> int option \<Rightarrow> bool" where
  "js_lt a b = (case (a, b) of (Some x, Some y) \<Rightarrow> x < y | _ \<Rightarrow> False)"


section \<open>Values, errors and collaborators\<close>

text \<open>
  What a caller may pass where the module expects \<^verbatim>\<open>string | Date | number\<close>, with
  the two values an untyped caller passes for a missing bound. A \<^verbatim>\<open>Date\<close> object is
  given by \<open>'d\<close>: its time value (\<^typ>\<open>int option\<close>) where object identity plays no
  role, its address where the objects live in a store.
\<close>

datatype 'd date_input =
    Undefined
  | Null
  | Number rat
  | NaN
  | String string
  | DateObj 'd

text \<open>The truth value of \<^verbatim>\<open>!!v\<close>.\<close>

fun truthy :: "'d date_input \<Rightarrow> bool" where
  "truthy Undefined = False"
| "truthy Null = False"
| "truthy (Number n) = (n \<noteq> 0)"
| "truthy NaN = False"
| "truthy (String s) = (s \<noteq> [])"
| "truthy (DateObj d) = True"

text \<open>
  Every failure of the module is a \<^verbatim>\<open>FakerError\<close>; the constructors tell the
  messages apart, under the names of the specification:
  \<^item> \<open>InvalidDateError name\<close>: \<^verbatim>\<open>Invalid ${name} date: ...\<close>
  \<^item> \<open>MissingBoundsError\<close>: \<^verbatim>\<open>Must pass an options object with `from` and `to` values.\<close>
  \<^item> \<open>InvalidRangeError\<close>: \<^verbatim>\<open>`from` date must be before `to` date.\<close> and
    \<^verbatim>\<open>Max ${options.max} should be larger than or equal to min ${options.min}.\<close>
  \<^item> \<open>InvalidArgumentError\<close>: \<^verbatim>\<open>Years must be greater than 0.\<close> and
    \<^verbatim>\<open>Days must be greater than 0.\<close>
  \<^item> \<open>LocaleDataError\<close>: raised by \<^verbatim>\<open>assertLocaleData\<close>
  \<^item> \<open>CollaboratorError\<close>: any error raised inside a collaborator
\<close>

datatype error =
    InvalidDateError string
  | MissingBoundsError
  | InvalidRangeError
  | InvalidArgumentError
  | LocaleDataError
  | CollaboratorError

text \<open>The string table of one category, \<^verbatim>\<open>DateEntryDefinition\<close>; \<open>None\<close> is null or undefined.\<close>

record date_entry =
  wide :: "string list option"
  wide_context :: "string list option"
  abbr :: "string list option"
  abbr_context :: "string list option"

datatype entry_key = Wide_key | Wide_context_key | Abbr_key | Abbr_context_key

text \<open>
  The \<^verbatim>\<open>faker\<close> instance the module is built on, and the host's string parser. None
  of them is code of the module; they are parameters of the model. \<open>'s\<close> is the state
  of the random source, which every draw advances.
  \<^item> \<open>Date_parse\<close>: the time value the host reads from a string, \<open>None\<close> when it reads none
  \<^item> \<open>defaultRefDate\<close>: the time value of \<^verbatim>\<open>faker.defaultRefDate()\<close>
  \<^item> \<open>number_int\<close>: \<^verbatim>\<open>faker.number.int({ min, max })\<close>
  \<^item> \<open>arrayElement\<close>: \<^verbatim>\<open>faker.helpers.arrayElement(values)\<close>
  \<^item> \<open>date_month\<close>, \<open>date_weekday\<close>: \<^verbatim>\<open>faker.definitions.date.month\<close> and
    \<^verbatim>\<open>faker.definitions.date.weekday\<close>
\<close>

record 's faker =
  Date_parse :: "string \<Rightarrow> int option"
  defaultRefDate :: "int option"
  number_int :: "int option \<Rightarrow> int option \<Rightarrow> 's \<Rightarrow> (error + int option) \<times> 's"
  arrayElement :: "string list \<Rightarrow> 's \<Rightarrow> (error + string) \<times> 's"
  date_month :: date_entry
  date_weekday :: date_entry

text \<open>
  What the specification promises of the two random collaborators:
  \<^verbatim>\<open>randomInt(min, max)\<close> returns an integer within the inclusive bounds, and
  \<^verbatim>\<open>chooseOne(list)\<close> returns an element of the list.
\<close>

definition int_contract :: "'s faker \<Rightarrow> bool" where
  "int_contract F \<longleftrightarrow>
    (\<forall>lo hi s. lo \<le> hi \<longrightarrow>
       (\<exists>r. fst (number_int F (Some lo) (Some hi) s) = Inr (Some r) \<and> lo \<le> r \<and> r \<le> hi))"

definition choice_contract :: "'s faker \<Rightarrow> bool" where
  "choice_contract F \<longleftrightarrow>
    (\<forall>xs s. xs \<noteq> [] \<longrightarrow> (\<exists>x \<in> set xs. fst (arrayElement F xs s) = Inr x))"

text \<open>
  Modelled from the spec: \<^verbatim>\<open>randomInt(min, max)\<close>, whose code is not part of the
  sources at hand. An executable source that is deterministic under its seed: the state is
  the list of the raw draws to come, and a draw is reduced into the inclusive interval.
\<close>

definition seq_int :: "int option \<Rightarrow> int option \<Rightarrow> int list \<Rightarrow> (error + int option) \<times> int list" where
  "seq_int lo hi s =
    (case (lo, hi) of
       (Some l, Some h) \<Rightarrow>
         if h < l then (Inl CollaboratorError, s)
         else (Inr (Some (l + (case s of [] \<Rightarrow> 0 | x # _ \<Rightarrow> x) mod (h - l + 1))), tl s)
     | _ \<Rightarrow> (Inr None, s))"

text \<open>Modelled from the spec: \<^verbatim>\<open>chooseOne(list)\<close>, on the same kind of source.\<close>

definition seq_choice :: "string list \<Rightarrow> int list \<Rightarrow> (error + string) \<times> int list" where
  "seq_choice xs s =
    (if xs = [] then (Inl CollaboratorError, s)
     else (Inr (xs ! nat ((case s of [] \<Rightarrow> 0 | x # _ \<Rightarrow> x) mod int (length xs))), tl s))"

text \<open>
  Modelled from the spec: the count of \<^verbatim>\<open>repeat(factory, count)\<close> is a fixed integer or
  an inclusive \<^verbatim>\<open>{min, max}\<close> range that the collaborator resolves with one draw.
\<close>

datatype count_spec = Fixed int | Range int int

fun repeat_n :: "nat \<Rightarrow> ('s \<Rightarrow> (error + 'a) \<times> 's) \<Rightarrow> 's \<Rightarrow> (error + 'a list) \<times> 's" where
  "repeat_n 0 f s = (Inr [], s)"
| "repeat_n (Suc n) f s =
    (case f s of
       (Inl e, s') \<Rightarrow> (Inl e, s')
     | (Inr x, s') \<Rightarrow>
         (case repeat_n n f s' of
            (Inl e, s'') \<Rightarrow> (Inl e, s'')
          | (Inr xs, s'') \<Rightarrow> (Inr (x # xs), s'')))"

text \<open>
  Modelled from the spec: \<^verbatim>\<open>repeat(factory, count)\<close>, the helper
  \<^verbatim>\<open>faker.helpers.multiple\<close>, whose code is not part of the sources at hand. It
  resolves the count, then calls the factory that many times, in order; an error of the
  factory ends the call.
\<close>

definition rangeToNumber :: "'s faker \<Rightarrow> count_spec \<Rightarrow> 's \<Rightarrow> (error + int option) \<times> 's" where
  "rangeToNumber F count s =
    (case count of
       Fixed n \<Rightarrow> (Inr (Some n), s)
     | Range lo hi \<Rightarrow> number_int F (Some lo) (Some hi) s)"

definition multiple ::
  "'s faker \<Rightarrow> ('s \<Rightarrow> (error + 'a) \<times> 's) \<Rightarrow> count_spec \<Rightarrow> 's \<Rightarrow> (error + 'a list) \<times> 's" where
  "multiple F method count s =
    (case rangeToNumber F count s of
       (Inl e, s') \<Rightarrow> (Inl e, s')
     | (Inr None, s') \<Rightarrow> (Inr [], s')
     | (Inr (Some n), s') \<Rightarrow> repeat_n (nat n) method s')"

text \<open>
  \<^verbatim>\<open>array.sort(comparefn)\<close>: the host sorts by the sign of the comparator and reads a
  NaN result as zero. The host's algorithm is its own; a stable insertion sort stands for
  it here, which agrees with any stable sort when the comparator is a consistent order.
\<close>

fun insert_by :: "('a \<Rightarrow> 'a \<Rightarrow> int option) \<Rightarrow> 'a \<Rightarrow> 'a list \<Rightarrow> 'a list" where
  "insert_by cmp x [] = [x]"
| "insert_by cmp x (y # ys) =
    (if (case cmp x y of None \<Rightarrow> 0 | Some v \<Rightarrow> v) \<le> 0 then x # y # ys
     else y # insert_by cmp x ys)"

definition array_sort :: "('a \<Rightarrow> 'a \<Rightarrow> int option) \<Rightarrow> 'a list \<Rightarrow> 'a list" where
  "array_sort cmp xs = foldr (insert_by cmp) xs []"

text \<open>The subtraction \<^verbatim>\<open>a - b\<close> of two numbers.\<close>

definition js_minus :: "'a::minus option \<Rightarrow> 'a option \<Rightarrow> 'a option" where
  "js_minus a b = (case (a, b) of (Some x, Some y) \<Rightarrow> Some (x - y) | _ \<Rightarrow> None)"

text \<open>
  Modelled from the spec: the locale assertion \<^verbatim>\<open>assertLocaleData\<close>, whose code is not
  part of the sources at hand. It fails when the resolved variant is absent or empty.
\<close>

definition assertLocaleData :: "string list option \<Rightarrow> error + string list" where
  "assertLocaleData values =
    (case values of
       None \<Rightarrow> Inl LocaleDataError
     | Some [] \<Rightarrow> Inl LocaleDataError
     | Some (x # xs) \<Rightarrow> Inr (x # xs))"


section \<open>The date module\<close>

text \<open>
  \<^verbatim>\<open>new Date(value)\<close> with one argument, as the time value of the new object: that of
  a given date, the parse of a string, the number itself; then clipped to the range of
  time values. \<^verbatim>\<open>new Date(undefined)\<close> is an invalid date and \<^verbatim>\<open>new Date(null)\<close>
  is the epoch.
\<close>

definition new_Date :: "'s faker \<Rightarrow> int option date_input \<Rightarrow> int option" where
  "new_Date F v =
    (case v of
       Undefined \<Rightarrow> None
     | Null \<Rightarrow> TimeClip 0
     | Number n \<Rightarrow> TimeClip_number n
     | NaN \<Rightarrow> None
     | String str \<Rightarrow> Option.bind (Date_parse F str) TimeClip
     | DateObj tv \<Rightarrow> Option.bind tv TimeClip)"

text \<open>\<^verbatim>\<open>new Date(n)\<close> for a number \<open>n\<close>.\<close>

definition new_Date_number :: "int option \<Rightarrow> int option" where
  "new_Date_number n = Option.bind n TimeClip"

text \<open>
  \<^verbatim>\<open>toDate(date, name)\<close>. The date returned is valid, so it is given by its time value,
  which is also what \<^verbatim>\<open>getTime()\<close> reads from it.
\<close>

definition toDate :: "'s faker \<Rightarrow> int option date_input \<Rightarrow> string \<Rightarrow> error + int" where
  "toDate F date name =
    (case new_Date F date of
       None \<Rightarrow> Inl (InvalidDateError name)
     | Some converted \<Rightarrow> Inr converted)"

text \<open>The default of the option \<^verbatim>\<open>refDate\<close>, taken when the option is undefined.\<close>

definition refDate_or_default :: "'s faker \<Rightarrow> int option date_input \<Rightarrow> int option date_input" where
  "refDate_or_default F refDate =
    (case refDate of Undefined \<Rightarrow> DateObj (defaultRefDate F) | _ \<Rightarrow> refDate)"

definition between ::
  "'s faker \<Rightarrow> int option date_input \<Rightarrow> int option date_input \<Rightarrow> 's \<Rightarrow> (error + int option) \<times> 's" where
  "between F from to s =
    (if \<not> truthy from \<or> \<not> truthy to then (Inl MissingBoundsError, s)
     else
       case toDate F from ''from'' of
         Inl e \<Rightarrow> (Inl e, s)
       | Inr fromMs \<Rightarrow>
           (case toDate F to ''to'' of
              Inl e \<Rightarrow> (Inl e, s)
            | Inr toMs \<Rightarrow>
                if fromMs > toMs then (Inl InvalidRangeError, s)
                else
                  (case number_int F (Some fromMs) (Some toMs) s of
                     (Inl e, s') \<Rightarrow> (Inl e, s')
                   | (Inr r, s') \<Rightarrow> (Inr (new_Date_number r), s'))))"

definition anytime ::
  "'s faker \<Rightarrow> int option date_input \<Rightarrow> 's \<Rightarrow> (error + int option) \<times> 's" where
  "anytime F refDate s =
    (case toDate F (refDate_or_default F refDate) ''refDate'' of
       Inl e \<Rightarrow> (Inl e, s)
     | Inr time \<Rightarrow>
         between F (Number (of_int time - 1000 * 60 * 60 * 24 * 365))
                   (Number (of_int time + 1000 * 60 * 60 * 24 * 365)) s)"

definition past ::
  "'s faker \<Rightarrow> rat option \<Rightarrow> int option date_input \<Rightarrow> 's \<Rightarrow> (error + int option) \<times> 's" where
  "past F years_opt refDate s =
    (let years = (case years_opt of None \<Rightarrow> 1 | Some y \<Rightarrow> y) in
     if years \<le> 0 then (Inl InvalidArgumentError, s)
     else
       case toDate F (refDate_or_default F refDate) ''refDate'' of
         Inl e \<Rightarrow> (Inl e, s)
       | Inr time \<Rightarrow>
           between F (Number (of_int time - years * 365 * 24 * 3600 * 1000))
                     (Number (of_int time - 1000)) s)"

definition future ::
  "'s faker \<Rightarrow> rat option \<Rightarrow> int option date_input \<Rightarrow> 's \<Rightarrow> (error + int option) \<times> 's" where
  "future F years_opt refDate s =
    (let years = (case years_opt of None \<Rightarrow> 1 | Some y \<Rightarrow> y) in
     if years \<le> 0 then (Inl InvalidArgumentError, s)
     else
       case toDate F (refDate_or_default F refDate) ''refDate'' of
         Inl e \<Rightarrow> (Inl e, s)
       | Inr time \<Rightarrow>
           between F (Number (of_int time + 1000))
                     (Number (of_int time + years * 365 * 24 * 3600 * 1000)) s)"

definition betweens ::
  "'s faker \<Rightarrow> int option date_input \<Rightarrow> int option date_input \<Rightarrow> count_spec option \<Rightarrow> 's
    \<Rightarrow> (error + int option list) \<times> 's" where
  "betweens F from to count_opt s =
    (if \<not> truthy from \<or> \<not> truthy to then (Inl MissingBoundsError, s)
     else
       let count = (case count_opt of None \<Rightarrow> Fixed 3 | Some c \<Rightarrow> c) in
       case multiple F (between F from to) count s of
         (Inl e, s') \<Rightarrow> (Inl e, s')
       | (Inr dates, s') \<Rightarrow> (Inr (array_sort (\<lambda>a b. js_minus a b) dates), s'))"

definition recent ::
  "'s faker \<Rightarrow> rat option \<Rightarrow> int option date_input \<Rightarrow> 's \<Rightarrow> (error + int option) \<times> 's" where
  "recent F days_opt refDate s =
    (let days = (case days_opt of None \<Rightarrow> 1 | Some d \<Rightarrow> d) in
     if days \<le> 0 then (Inl InvalidArgumentError, s)
     else
       case toDate F (refDate_or_default F refDate) ''refDate'' of
         Inl e \<Rightarrow> (Inl e, s)
       | Inr time \<Rightarrow>
           between F (Number (of_int time - days * 24 * 3600 * 1000))
                     (Number (of_int time - 1000)) s)"

definition soon ::
  "'s faker \<Rightarrow> rat option \<Rightarrow> int option date_input \<Rightarrow> 's \<Rightarrow> (error + int option) \<times> 's" where
  "soon F days_opt refDate s =
    (let days = (case days_opt of None \<Rightarrow> 1 | Some d \<Rightarrow> d) in
     if days \<le> 0 then (Inl InvalidArgumentError, s)
     else
       case toDate F (refDate_or_default F refDate) ''refDate'' of
         Inl e \<Rightarrow> (Inl e, s)
       | Inr time \<Rightarrow>
           between F (Number (of_int time + 1000))
                     (Number (of_int time + days * 24 * 3600 * 1000)) s)"

datatype birthdate_mode = Age | Year

text \<open>
  The two epoch timestamps \<^verbatim>\<open>min\<close> and \<^verbatim>\<open>max\<close> that \<^verbatim>\<open>birthdate\<close> computes
  from its options and the converted reference date \<open>date\<close>. Each is the number that
  \<^verbatim>\<open>setUTCFullYear\<close> returns, NaN when the new date is out of range.
\<close>

definition birthdate_bounds ::
  "birthdate_mode \<Rightarrow> int option \<Rightarrow> int option \<Rightarrow> int \<Rightarrow> int option \<times> int option" where
  "birthdate_bounds mode options_min options_max date =
    (let refYear = YearFromTime date in
     if mode = Age then
       (setUTCFullYear (new_Date_number (Some date))
          (refYear - (case options_max of None \<Rightarrow> 80 | Some m \<Rightarrow> m) - 1),
        setUTCFullYear (new_Date_number (Some date))
          (refYear - (case options_min of None \<Rightarrow> 18 | Some m \<Rightarrow> m)))
     else
       (setUTCFullYear (new_Date_number (Date_UTC 0 0 2))
          (case options_min of None \<Rightarrow> refYear - 80 | Some m \<Rightarrow> m),
        setUTCFullYear (new_Date_number (Date_UTC 0 11 30))
          (case options_max of None \<Rightarrow> refYear - 19 | Some m \<Rightarrow> m)))"

definition birthdate ::
  "'s faker \<Rightarrow> int option \<Rightarrow> int option \<Rightarrow> birthdate_mode option \<Rightarrow> int option date_input \<Rightarrow> 's
    \<Rightarrow> (error + int option) \<times> 's" where
  "birthdate F options_min options_max mode_opt refDate s =
    (let mode = (case mode_opt of None \<Rightarrow> Year | Some m \<Rightarrow> m) in
     case toDate F (refDate_or_default F refDate) ''refDate'' of
       Inl e \<Rightarrow> (Inl e, s)
     | Inr date \<Rightarrow>
         (case birthdate_bounds mode options_min options_max date of
            (min_t, max_t) \<Rightarrow>
              if js_lt max_t min_t then (Inl InvalidRangeError, s)
              else
                (case number_int F min_t max_t s of
                   (Inl e, s') \<Rightarrow> (Inl e, s')
                 | (Inr r, s') \<Rightarrow> (Inr (new_Date_number r), s'))))"

text \<open>\<^verbatim>\<open>source[type]\<close>\<close>

fun entry_get :: "date_entry \<Rightarrow> entry_key \<Rightarrow> string list option" where
  "entry_get source Wide_key = wide source"
| "entry_get source Wide_context_key = wide_context source"
| "entry_get source Abbr_key = abbr source"
| "entry_get source Abbr_context_key = abbr_context source"

text \<open>The variant \<^verbatim>\<open>type\<close> that \<^verbatim>\<open>month\<close> resolves.\<close>

definition month_type :: "'s faker \<Rightarrow> bool option \<Rightarrow> bool option \<Rightarrow> entry_key" where
  "month_type F abbreviated_opt context_opt =
    (let abbreviated = (case abbreviated_opt of None \<Rightarrow> False | Some b \<Rightarrow> b);
         context = (case context_opt of None \<Rightarrow> False | Some b \<Rightarrow> b);
         source = date_month F
     in if abbreviated then
          (let useContext = (context \<and> abbr_context source \<noteq> None)
           in if useContext then Abbr_context_key else Abbr_key)
        else
          (let useContext = (context \<and> wide_context source \<noteq> None)
           in if useContext then Wide_context_key else Wide_key))"

definition month ::
  "'s faker \<Rightarrow> bool option \<Rightarrow> bool option \<Rightarrow> 's \<Rightarrow> (error + string) \<times> 's" where
  "month F abbreviated_opt context_opt s =
    (let type = month_type F abbreviated_opt context_opt;
         values = entry_get (date_month F) type
     in case assertLocaleData values of
          Inl e \<Rightarrow> (Inl e, s)
        | Inr vs \<Rightarrow> arrayElement F vs s)"

text \<open>The variant \<^verbatim>\<open>type\<close> that \<^verbatim>\<open>weekday\<close> resolves.\<close>

definition weekday_type :: "'s faker \<Rightarrow> bool option \<Rightarrow> bool option \<Rightarrow> entry_key" where
  "weekday_type F abbreviated_opt context_opt =
    (let abbreviated = (case abbreviated_opt of None \<Rightarrow> False | Some b \<Rightarrow> b);
         context = (case context_opt of None \<Rightarrow> False | Some b \<Rightarrow> b);
         source = date_weekday F
     in if abbreviated then
          (let useContext = (context \<and> abbr_context source \<noteq> None)
           in if useContext then Abbr_context_key else Abbr_key)
        else
          (let useContext = (context \<and> wide_context source \<noteq> None)
           in if useContext then Wide_context_key else Wide_key))"

definition weekday ::
  "'s faker \<Rightarrow> bool option \<Rightarrow> bool option \<Rightarrow> 's \<Rightarrow> (error + string) \<times> 's" where
  "weekday F abbreviated_opt context_opt s =
    (let type = weekday_type F abbreviated_opt context_opt;
         values = entry_get (date_weekday F) type
     in case assertLocaleData values of
          Inl e \<Rightarrow> (Inl e, s)
        | Inr vs \<Rightarrow> arrayElement F vs s)"


text \<open>
  The variant resolution in the words of the specification: start from the base variant,
  \<^verbatim>\<open>abbr\<close> when abbreviated and \<^verbatim>\<open>wide\<close> otherwise; when \<^verbatim>\<open>context\<close> is true
  and the table defines the context counterpart of the base, take the counterpart.
\<close>

definition spec_variant :: "date_entry \<Rightarrow> bool \<Rightarrow> bool \<Rightarrow> entry_key" where
  "spec_variant table abbreviated context =
    (let base = (if abbreviated then Abbr_key else Wide_key);
         counterpart = (if base = Abbr_key then Abbr_context_key else Wide_context_key)
     in if context \<and> entry_get table counterpart \<noteq> None then counterpart else base)"


section \<open>The date module over an object store\<close>

text \<open>
  To say which \<^verbatim>\<open>Date\<close> objects a call writes to, the objects get addresses. The store
  is the list of the time values of all objects allocated so far; the address of an object
  is its index. A caller passes a date as \<open>DateObj a\<close>, \<open>a\<close> being an address of the
  store. The functions of this section are those of the section before, with every
  \<^verbatim>\<open>new Date\<close> an allocation and \<^verbatim>\<open>setUTCFullYear\<close> an update in place.
\<close>

type_synonym heap = "int option list"

definition heap_get :: "heap \<Rightarrow> nat \<Rightarrow> int option" where
  "heap_get h a = (if a < length h then h ! a else None)"

definition alloc :: "int option \<Rightarrow> heap \<Rightarrow> nat \<times> heap" where
  "alloc tv h = (length h, h @ [tv])"

text \<open>The input with every date replaced by its time value in the store.\<close>

definition deref :: "heap \<Rightarrow> nat date_input \<Rightarrow> int option date_input" where
  "deref h v = map_date_input (heap_get h) v"

text \<open>A date that a caller passes exists: its address is one of the store.\<close>

definition allocated :: "heap \<Rightarrow> nat date_input \<Rightarrow> bool" where
  "allocated h v = (case v of DateObj a \<Rightarrow> a < length h | _ \<Rightarrow> True)"

definition new_Date_h :: "'s faker \<Rightarrow> nat date_input \<Rightarrow> heap \<Rightarrow> nat \<times> heap" where
  "new_Date_h F v h = alloc (new_Date F (deref h v)) h"

definition toDate_h :: "'s faker \<Rightarrow> nat date_input \<Rightarrow> string \<Rightarrow> heap \<Rightarrow> (error + nat) \<times> heap" where
  "toDate_h F date name h =
    (case new_Date_h F date h of
       (converted, h') \<Rightarrow>
         if heap_get h' converted = None then (Inl (InvalidDateError name), h')
         else (Inr converted, h'))"

text \<open>\<^verbatim>\<open>d.setUTCFullYear(year)\<close> on the object at address \<open>d\<close>; a NaN year gives NaN.\<close>

definition setUTCFullYear_h :: "nat \<Rightarrow> int option \<Rightarrow> heap \<Rightarrow> int option \<times> heap" where
  "setUTCFullYear_h d year h =
    (let u = (case year of None \<Rightarrow> None | Some y \<Rightarrow> setUTCFullYear (heap_get h d) y)
     in (u, h[d := u]))"

text \<open>\<^verbatim>\<open>faker.defaultRefDate()\<close> returns a date of its own.\<close>

definition refDate_or_default_h :: "'s faker \<Rightarrow> nat date_input \<Rightarrow> heap \<Rightarrow> nat date_input \<times> heap" where
  "refDate_or_default_h F refDate h =
    (case refDate of
       Undefined \<Rightarrow> (case alloc (defaultRefDate F) h of (a, h') \<Rightarrow> (DateObj a, h'))
     | _ \<Rightarrow> (refDate, h))"

text \<open>A number as a bound of \<^verbatim>\<open>between\<close>.\<close>

definition as_input :: "rat option \<Rightarrow> nat date_input" where
  "as_input n = (case n of None \<Rightarrow> NaN | Some k \<Rightarrow> Number k)"

definition js_plus :: "'a::plus option \<Rightarrow> 'a option \<Rightarrow> 'a option" where
  "js_plus a b = (case (a, b) of (Some x, Some y) \<Rightarrow> Some (x + y) | _ \<Rightarrow> None)"

definition between_h ::
  "'s faker \<Rightarrow> nat date_input \<Rightarrow> nat date_input \<Rightarrow> heap \<Rightarrow> 's \<Rightarrow> (error + nat) \<times> heap \<times> 's" where
  "between_h F from to h s =
    (if \<not> truthy from \<or> \<not> truthy to then (Inl MissingBoundsError, h, s)
     else
       case toDate_h F from ''from'' h of
         (Inl e, h1) \<Rightarrow> (Inl e, h1, s)
       | (Inr from_date, h1) \<Rightarrow>
           (case toDate_h F to ''to'' h1 of
              (Inl e, h2) \<Rightarrow> (Inl e, h2, s)
            | (Inr to_date, h2) \<Rightarrow>
                (let fromMs = heap_get h2 from_date; toMs = heap_get h2 to_date in
                 if js_lt toMs fromMs then (Inl InvalidRangeError, h2, s)
                 else
                   (case number_int F fromMs toMs s of
                      (Inl e, s') \<Rightarrow> (Inl e, h2, s')
                    | (Inr r, s') \<Rightarrow>
                        (case alloc (new_Date_number r) h2 of (a, h3) \<Rightarrow> (Inr a, h3, s'))))))"

definition anytime_h ::
  "'s faker \<Rightarrow> nat date_input \<Rightarrow> heap \<Rightarrow> 's \<Rightarrow> (error + nat) \<times> heap \<times> 's" where
  "anytime_h F refDate h s =
    (case refDate_or_default_h F refDate h of
       (rd, h0) \<Rightarrow>
         (case toDate_h F rd ''refDate'' h0 of
            (Inl e, h1) \<Rightarrow> (Inl e, h1, s)
          | (Inr d, h1) \<Rightarrow>
              (let time = map_option of_int (heap_get h1 d) in
               between_h F (as_input (js_minus time (Some (1000 * 60 * 60 * 24 * 365))))
                           (as_input (js_plus time (Some (1000 * 60 * 60 * 24 * 365)))) h1 s)))"

definition past_h ::
  "'s faker \<Rightarrow> rat option \<Rightarrow> nat date_input \<Rightarrow> heap \<Rightarrow> 's \<Rightarrow> (error + nat) \<times> heap \<times> 's" where
  "past_h F years_opt refDate h s =
    (let years = (case years_opt of None \<Rightarrow> 1 | Some y \<Rightarrow> y) in
     if years \<le> 0 then (Inl InvalidArgumentError, h, s)
     else
       case refDate_or_default_h F refDate h of
         (rd, h0) \<Rightarrow>
           (case toDate_h F rd ''refDate'' h0 of
              (Inl e, h1) \<Rightarrow> (Inl e, h1, s)
            | (Inr d, h1) \<Rightarrow>
                (let time = map_option of_int (heap_get h1 d) in
                 between_h F (as_input (js_minus time (Some (years * 365 * 24 * 3600 * 1000))))
                             (as_input (js_minus time (Some 1000))) h1 s)))"

definition future_h ::
  "'s faker \<Rightarrow> rat option \<Rightarrow> nat date_input \<Rightarrow> heap \<Rightarrow> 's \<Rightarrow> (error + nat) \<times> heap \<times> 's" where
  "future_h F years_opt refDate h s =
    (let years = (case years_opt of None \<Rightarrow> 1 | Some y \<Rightarrow> y) in
     if years \<le> 0 then (Inl InvalidArgumentError, h, s)
     else
       case refDate_or_default_h F refDate h of
         (rd, h0) \<Rightarrow>
           (case toDate_h F rd ''refDate'' h0 of
              (Inl e, h1) \<Rightarrow> (Inl e, h1, s)
            | (Inr d, h1) \<Rightarrow>
                (let time = map_option of_int (heap_get h1 d) in
                 between_h F (as_input (js_plus time (Some 1000)))
                             (as_input (js_plus time (Some (years * 365 * 24 * 3600 * 1000)))) h1 s)))"

definition recent_h ::
  "'s faker \<Rightarrow> rat option \<Rightarrow> nat date_input \<Rightarrow> heap \<Rightarrow> 's \<Rightarrow> (error + nat) \<times> heap \<times> 's" where
  "recent_h F days_opt refDate h s =
    (let days = (case days_opt of None \<Rightarrow> 1 | Some d \<Rightarrow> d) in
     if days \<le> 0 then (Inl InvalidArgumentError, h, s)
     else
       case refDate_or_default_h F refDate h of
         (rd, h0) \<Rightarrow>
           (case toDate_h F rd ''refDate'' h0 of
              (Inl e, h1) \<Rightarrow> (Inl e, h1, s)
            | (Inr d, h1) \<Rightarrow>
                (let time = map_option of_int (heap_get h1 d) in
                 between_h F (as_input (js_minus time (Some (days * 24 * 3600 * 1000))))
                             (as_input (js_minus time (Some 1000))) h1 s)))"

definition soon_h ::
  "'s faker \<Rightarrow> rat option \<Rightarrow> nat date_input \<Rightarrow> heap \<Rightarrow> 's \<Rightarrow> (error + nat) \<times> heap \<times> 's" where
  "soon_h F days_opt refDate h s =
    (let days = (case days_opt of None \<Rightarrow> 1 | Some d \<Rightarrow> d) in
     if days \<le> 0 then (Inl InvalidArgumentError, h, s)
     else
       case refDate_or_default_h F refDate h of
         (rd, h0) \<Rightarrow>
           (case toDate_h F rd ''refDate'' h0 of
              (Inl e, h1) \<Rightarrow> (Inl e, h1, s)
            | (Inr d, h1) \<Rightarrow>
                (let time = map_option of_int (heap_get h1 d) in
                 between_h F (as_input (js_plus time (Some 1000)))
                             (as_input (js_plus time (Some (days * 24 * 3600 * 1000)))) h1 s)))"

fun repeat_h ::
  "nat \<Rightarrow> (heap \<Rightarrow> 's \<Rightarrow> (error + 'a) \<times> heap \<times> 's) \<Rightarrow> heap \<Rightarrow> 's \<Rightarrow> (error + 'a list) \<times> heap \<times> 's" where
  "repeat_h 0 f h s = (Inr [], h, s)"
| "repeat_h (Suc n) f h s =
    (case f h s of
       (Inl e, h', s') \<Rightarrow> (Inl e, h', s')
     | (Inr x, h', s') \<Rightarrow>
         (case repeat_h n f h' s' of
            (Inl e, h'', s'') \<Rightarrow> (Inl e, h'', s'')
          | (Inr xs, h'', s'') \<Rightarrow> (Inr (x # xs), h'', s'')))"

definition betweens_h ::
  "'s faker \<Rightarrow> nat date_input \<Rightarrow> nat date_input \<Rightarrow> count_spec option \<Rightarrow> heap \<Rightarrow> 's
    \<Rightarrow> (error + nat list) \<times> heap \<times> 's" where
  "betweens_h F from to count_opt h s =
    (if \<not> truthy from \<or> \<not> truthy to then (Inl MissingBoundsError, h, s)
     else
       let count = (case count_opt of None \<Rightarrow> Fixed 3 | Some c \<Rightarrow> c) in
       case rangeToNumber F count s of
         (Inl e, s0) \<Rightarrow> (Inl e, h, s0)
       | (Inr None, s0) \<Rightarrow> (Inr [], h, s0)
       | (Inr (Some n), s0) \<Rightarrow>
           (case repeat_h (nat n) (between_h F from to) h s0 of
              (Inl e, h', s') \<Rightarrow> (Inl e, h', s')
            | (Inr dates, h', s') \<Rightarrow>
                (Inr (array_sort (\<lambda>a b. js_minus (heap_get h' a) (heap_get h' b)) dates), h', s')))"

text \<open>
  The two epoch timestamps of \<^verbatim>\<open>birthdate\<close>, \<open>date\<close> being the address of the
  converted reference date: each \<^verbatim>\<open>setUTCFullYear\<close> writes to a date made for it.
\<close>

definition birthdate_bounds_h ::
  "'s faker \<Rightarrow> birthdate_mode \<Rightarrow> int option \<Rightarrow> int option \<Rightarrow> nat \<Rightarrow> heap
    \<Rightarrow> int option \<times> int option \<times> heap" where
  "birthdate_bounds_h F mode options_min options_max date h1 =
    (let refYear = map_option YearFromTime (heap_get h1 date) in
     if mode = Age then
       (case new_Date_h F (DateObj date) h1 of
          (d1, h2) \<Rightarrow>
            (case setUTCFullYear_h d1
                    (js_minus (js_minus refYear
                       (Some (case options_max of None \<Rightarrow> 80 | Some m \<Rightarrow> m))) (Some 1)) h2 of
               (min_t, h3) \<Rightarrow>
                 (case new_Date_h F (DateObj date) h3 of
                    (d2, h4) \<Rightarrow>
                      (case setUTCFullYear_h d2
                              (js_minus refYear
                                 (Some (case options_min of None \<Rightarrow> 18 | Some m \<Rightarrow> m))) h4 of
                         (max_t, h5) \<Rightarrow> (min_t, max_t, h5)))))
     else
       (case alloc (new_Date_number (Date_UTC 0 0 2)) h1 of
          (d1, h2) \<Rightarrow>
            (case setUTCFullYear_h d1
                    (case options_min of None \<Rightarrow> js_minus refYear (Some 80) | Some m \<Rightarrow> Some m) h2 of
               (min_t, h3) \<Rightarrow>
                 (case alloc (new_Date_number (Date_UTC 0 11 30)) h3 of
                    (d2, h4) \<Rightarrow>
                      (case setUTCFullYear_h d2
                              (case options_max of None \<Rightarrow> js_minus refYear (Some 19) | Some m \<Rightarrow> Some m) h4 of
                         (max_t, h5) \<Rightarrow> (min_t, max_t, h5))))))"

definition birthdate_h ::
  "'s faker \<Rightarrow> int option \<Rightarrow> int option \<Rightarrow> birthdate_mode option \<Rightarrow> nat date_input \<Rightarrow> heap \<Rightarrow> 's
    \<Rightarrow> (error + nat) \<times> heap \<times> 's" where
  "birthdate_h F options_min options_max mode_opt refDate h s =
    (let mode = (case mode_opt of None \<Rightarrow> Year | Some m \<Rightarrow> m) in
     case refDate_or_default_h F refDate h of
       (rd, h0) \<Rightarrow>
         (case toDate_h F rd ''refDate'' h0 of
            (Inl e, h1) \<Rightarrow> (Inl e, h1, s)
          | (Inr date, h1) \<Rightarrow>
              (case birthdate_bounds_h F mode options_min options_max date h1 of
                 (min_t, max_t, h5) \<Rightarrow>
                   if js_lt max_t min_t then (Inl InvalidRangeError, h5, s)
                   else
                     (case number_int F min_t max_t s of
                        (Inl e, s') \<Rightarrow> (Inl e, h5, s')
                      | (Inr r, s') \<Rightarrow>
                          (case alloc (new_Date_number r) h5 of (a, h6) \<Rightarrow> (Inr a, h6, s'))))))"

section \<open>A concrete instance\<close>

text \<open>
  An instance to run the module on: the host parser knows one string, the reference date
  is 2020-01-01T00:00:00.000Z, the random collaborators are the executable sources above,
  and the month table has no \<^verbatim>\<open>abbr_context\<close>.
\<close>

definition example_month :: date_entry where
  "example_month =
    \<lparr> wide = Some [''January'', ''February'', ''March''],
      wide_context = Some [''january'', ''february'', ''march''],
      abbr = Some [''Jan'', ''Feb'', ''Mar''],
      abbr_context = None \<rparr>"

definition example_weekday :: date_entry where
  "example_weekday =
    \<lparr> wide = Some [''Sunday'', ''Monday''],
      wide_context = None,
      abbr = Some [''Sun'', ''Mon''],
      abbr_context = Some [''sun'', ''mon''] \<rparr>"

definition example_faker :: "int list faker" where
  "example_faker =
    \<lparr> Date_parse = (\<lambda>str. if str = ''2020-01-01T00:00:00.000Z'' then Some 1577836800000 else None),
      defaultRefDate = Some 1577836800000,
      number_int = seq_int,
      arrayElement = seq_choice,
      date_month = example_month,
      date_weekday = example_weekday \<rparr>"

section \<open>Facts about time values\<close>

lemma div_step:
  fixes a n :: int
  assumes "0 < n"
  shows "(a + 1) div n = a div n + (if (a + 1) mod n = 0 then 1 else 0)"
proof -
  define q where "q = a div n"
  define r where "r = a mod n"
  have a: "a = n * q + r"
    by (simp add: q_def r_def)
  have r: "0 \<le> r" "r < n"
    using assms by (simp_all add: r_def)
  show ?thesis
  proof (cases "r + 1 < n")
    case True
    have e: "a + 1 = n * q + (r + 1)"
      using a by simp
    have "(a + 1) div n = q"
      using int_div_pos_eq [OF e] r True by simp
    moreover have "(a + 1) mod n = r + 1"
      using int_mod_pos_eq [OF e] r True by simp
    ultimately show ?thesis
      using r by (simp add: q_def)
  next
    case False
    then have rn: "r + 1 = n"
      using r by simp
    have e: "a + 1 = n * (q + 1) + 0"
      using a rn by (simp add: algebra_simps)
    have "(a + 1) div n = q + 1"
      using int_div_pos_eq [OF e] assms by simp
    moreover have "(a + 1) mod n = 0"
      using int_mod_pos_eq [OF e] assms by simp
    ultimately show ?thesis
      by (simp add: q_def)
  qed
qed

lemma shift_mod:
  fixes y c n :: int
  assumes "c mod n = 0"
  shows "(y - c) mod n = 0 \<longleftrightarrow> y mod n = 0"
proof -
  have "n dvd c"
    using assms by (simp add: mod_eq_0_iff_dvd)
  then have "n dvd y - c \<longleftrightarrow> n dvd y"
    by (simp add: dvd_diff_left_iff)
  then show ?thesis
    by (simp add: mod_eq_0_iff_dvd)
qed

text \<open>The days of a year are the distance between two year starts.\<close>

lemma DayFromYear_Suc: "DayFromYear (y + 1) = DayFromYear y + DaysInYear y"
proof -
  have a: "(y + 1 - 1969) div 4 = (y - 1969) div 4 + (if y mod 4 = 0 then 1 else 0)"
    using div_step [of 4 "y - 1969"] shift_mod [of 1968 4 y] by (simp add: algebra_simps)
  have b: "(y + 1 - 1901) div 100 = (y - 1901) div 100 + (if y mod 100 = 0 then 1 else 0)"
    using div_step [of 100 "y - 1901"] shift_mod [of 1900 100 y] by (simp add: algebra_simps)
  have c: "(y + 1 - 1601) div 400 = (y - 1601) div 400 + (if y mod 400 = 0 then 1 else 0)"
    using div_step [of 400 "y - 1601"] shift_mod [of 1600 400 y] by (simp add: algebra_simps)
  have d: "y mod 100 = 0 \<Longrightarrow> y mod 4 = 0"
    by auto
  have e: "y mod 400 = 0 \<Longrightarrow> y mod 100 = 0"
    by auto
  show ?thesis
    unfolding DayFromYear_def DaysInYear_def a b c using d e by auto
qed

lemma DaysInYear_ge: "365 \<le> DaysInYear y"
  unfolding DaysInYear_def by auto

lemma DaysInYear_le: "DaysInYear y \<le> 366"
  unfolding DaysInYear_def by auto

lemma DayFromYear_1970: "DayFromYear 1970 = 0"
  by (simp add: DayFromYear_def)

lemma start_nonneg: "0 \<le> k \<Longrightarrow> DayFromYear (1970 + k) \<le> 366 * k"
proof (induction k rule: int_ge_induct)
  case base
  show ?case
    by (simp add: DayFromYear_1970)
next
  case (step i)
  have "DayFromYear (1970 + (i + 1)) = DayFromYear (1970 + i) + DaysInYear (1970 + i)"
    using DayFromYear_Suc [of "1970 + i"] by (simp add: add.assoc)
  then show ?case
    using step.IH DaysInYear_le [of "1970 + i"] by simp
qed

lemma start_neg: "k \<le> 0 \<Longrightarrow> DayFromYear (1970 + k) \<le> 365 * k"
proof (induction k rule: int_le_induct)
  case base
  show ?case
    by (simp add: DayFromYear_1970)
next
  case (step i)
  have "DayFromYear (1970 + i) = DayFromYear (1970 + (i - 1)) + DaysInYear (1970 + (i - 1))"
    using DayFromYear_Suc [of "1970 + (i - 1)"] by (simp add: algebra_simps)
  then show ?case
    using step.IH DaysInYear_ge [of "1970 + (i - 1)"] by simp
qed

lemma DayFromYear_ahead: "0 \<le> k \<Longrightarrow> DayFromYear y + 365 * k \<le> DayFromYear (y + k)"
proof (induction k rule: int_ge_induct)
  case base
  show ?case
    by simp
next
  case (step i)
  have "DayFromYear (y + (i + 1)) = DayFromYear (y + i) + DaysInYear (y + i)"
    using DayFromYear_Suc [of "y + i"] by (simp add: add.assoc)
  then show ?case
    using step.IH DaysInYear_ge [of "y + i"] by simp
qed

lemma DayFromYear_gap: "y1 \<le> y2 \<Longrightarrow> DayFromYear y1 + 365 * (y2 - y1) \<le> DayFromYear y2"
  using DayFromYear_ahead [of "y2 - y1" y1] by simp

lemma year_search_spec:
  "DayFromYear y \<le> d \<Longrightarrow>
   DayFromYear (year_search d y) \<le> d \<and> d < DayFromYear (year_search d y + 1)"
proof (induction d y rule: year_search.induct)
  case (1 d y)
  show ?case
  proof (cases "DayFromYear (y + 1) \<le> d")
    case True
    then show ?thesis
      using "1.IH" by (simp add: year_search.simps [of d y])
  next
    case False
    then show ?thesis
      using "1.prems" by (simp add: year_search.simps [of d y])
  qed
qed

lemma YearFromDay_start:
  "DayFromYear (1970 + (if 0 \<le> d then d div 366 else d div 365)) \<le> d"
proof (cases "0 \<le> d")
  case True
  then have "0 \<le> d div 366"
    by simp
  then have "DayFromYear (1970 + d div 366) \<le> 366 * (d div 366)"
    by (rule start_nonneg)
  moreover have "366 * (d div 366) \<le> d"
    by simp
  ultimately show ?thesis
    using True by simp
next
  case False
  then have "d div 365 \<le> 0"
    by simp
  then have "DayFromYear (1970 + d div 365) \<le> 365 * (d div 365)"
    by (rule start_neg)
  moreover have "365 * (d div 365) \<le> d"
    by simp
  ultimately show ?thesis
    using False by simp
qed

text \<open>\<open>YearFromDay\<close> is the year of the standard: the last year that starts by day \<open>d\<close>.\<close>

lemma YearFromDay_spec:
  "DayFromYear (YearFromDay d) \<le> d \<and> d < DayFromYear (YearFromDay d + 1)"
  unfolding YearFromDay_def by (rule year_search_spec [OF YearFromDay_start])

lemma year_unique:
  assumes "DayFromYear y \<le> d" "d < DayFromYear (y + 1)"
  shows "YearFromDay d = y"
proof (rule ccontr)
  assume ne: "YearFromDay d \<noteq> y"
  let ?z = "YearFromDay d"
  have z: "DayFromYear ?z \<le> d" "d < DayFromYear (?z + 1)"
    using YearFromDay_spec by simp_all
  show False
  proof (cases "?z < y")
    case True
    then have "DayFromYear (?z + 1) \<le> DayFromYear y"
      using DayFromYear_gap [of "?z + 1" y] by simp
    then show False
      using z assms by simp
  next
    case False
    then have "y + 1 \<le> ?z"
      using ne by simp
    then have "DayFromYear (y + 1) \<le> DayFromYear ?z"
      using DayFromYear_gap [of "y + 1" ?z] by simp
    then show False
      using z assms by simp
  qed
qed

lemma YearFromDay_mono: "d1 \<le> d2 \<Longrightarrow> YearFromDay d1 \<le> YearFromDay d2"
proof (rule ccontr)
  assume le: "d1 \<le> d2" and "\<not> YearFromDay d1 \<le> YearFromDay d2"
  then have "YearFromDay d2 + 1 \<le> YearFromDay d1"
    by simp
  then have "DayFromYear (YearFromDay d2 + 1) \<le> DayFromYear (YearFromDay d1)"
    using DayFromYear_gap [of "YearFromDay d2 + 1" "YearFromDay d1"] by simp
  then show False
    using YearFromDay_spec [of d1] YearFromDay_spec [of d2] le by simp
qed

lemma Day_mono: "t1 \<le> t2 \<Longrightarrow> Day t1 \<le> Day t2"
  unfolding Day_def msPerDay_def by (simp add: zdiv_mono1)

lemma YearFromTime_mono: "t1 \<le> t2 \<Longrightarrow> YearFromTime t1 \<le> YearFromTime t2"
  unfolding YearFromTime_def by (rule YearFromDay_mono [OF Day_mono])

lemma DayWithinYear_bounds:
  "0 \<le> DayWithinYear t \<and> DayWithinYear t < 365 + InLeapYear t"
proof -
  have "DayFromYear (YearFromTime t + 1) = DayFromYear (YearFromTime t) + DaysInYear (YearFromTime t)"
    by (rule DayFromYear_Suc)
  moreover have "DaysInYear (YearFromTime t) = 365 + InLeapYear t"
    unfolding InLeapYear_def DaysInYear_def by simp
  ultimately show ?thesis
    using YearFromDay_spec [of "Day t"] unfolding DayWithinYear_def YearFromTime_def by simp
qed

lemma InLeapYear_cases: "InLeapYear t = 0 \<or> InLeapYear t = 1"
  unfolding InLeapYear_def by simp

lemma MonthFromTime_range: "0 \<le> MonthFromTime t \<and> MonthFromTime t \<le> 11"
  unfolding MonthFromTime_def Let_def by simp

text \<open>
  The month and the day of the month of any time value name a day of any year: moved to a
  year of leap flag \<open>l'\<close>, the day falls within that year.
\<close>

lemma year_offset_bounds:
  assumes "l' = 0 \<or> l' = 1"
  shows "0 \<le> DayFromMonth (MonthFromTime t) l' + DateFromTime t - 1
       \<and> DayFromMonth (MonthFromTime t) l' + DateFromTime t - 1 < 365 + l'"
proof -
  define d where "d = DayWithinYear t"
  define l where "l = InLeapYear t"
  have d: "0 \<le> d" "d < 365 + l"
    using DayWithinYear_bounds [of t] by (simp_all add: d_def l_def)
  have l: "l = 0 \<or> l = 1"
    using InLeapYear_cases [of t] by (simp add: l_def)
  show ?thesis
    unfolding MonthFromTime_def DateFromTime_def Let_def DayFromMonth_def
    unfolding d_def [symmetric] l_def [symmetric]
    using d l assms by auto
qed

lemma DayFromMonth_leap:
  "DayFromMonth m 0 \<le> DayFromMonth m 1 \<and> DayFromMonth m 1 \<le> DayFromMonth m 0 + 1"
  unfolding DayFromMonth_def by simp

lemma MakeDay_month:
  "MakeDay y (MonthFromTime t) dt =
   DayFromYear y + DayFromMonth (MonthFromTime t) (if DaysInYear y = 366 then 1 else 0) + dt - 1"
proof -
  have "MonthFromTime t div 12 = 0" "MonthFromTime t mod 12 = MonthFromTime t"
    using MonthFromTime_range [of t] by simp_all
  then show ?thesis
    unfolding MakeDay_def Let_def by simp
qed

lemma TimeWithinDay_bounds: "0 \<le> TimeWithinDay t \<and> TimeWithinDay t < msPerDay"
  unfolding TimeWithinDay_def msPerDay_def by simp

lemma Day_MakeDate: "0 \<le> tm \<Longrightarrow> tm < msPerDay \<Longrightarrow> Day (MakeDate day tm) = day"
  unfolding Day_def MakeDate_def msPerDay_def by simp

lemma TimeWithinDay_MakeDate:
  "0 \<le> tm \<Longrightarrow> tm < msPerDay \<Longrightarrow> TimeWithinDay (MakeDate day tm) = tm"
  unfolding TimeWithinDay_def MakeDate_def msPerDay_def by simp

lemma TimeClip_Some: "TimeClip t = Some u \<Longrightarrow> u = t \<and> \<bar>t\<bar> \<le> 8640000000000000"
  unfolding TimeClip_def by (simp split: if_splits)

lemma setUTCFullYear_Some:
  "setUTCFullYear (Some t) y = Some u \<Longrightarrow>
   u = MakeDate (MakeDay y (MonthFromTime t) (DateFromTime t)) (TimeWithinDay t)"
  unfolding setUTCFullYear_def Let_def by (auto dest: TimeClip_Some)

text \<open>A date moved to year \<open>y\<close> is in year \<open>y\<close>.\<close>

lemma setUTCFullYear_year:
  assumes "setUTCFullYear (Some t) y = Some u"
  shows "YearFromTime u = y"
proof -
  let ?l = "if DaysInYear y = 366 then 1 else (0::int)"
  let ?day = "MakeDay y (MonthFromTime t) (DateFromTime t)"
  have u: "u = MakeDate ?day (TimeWithinDay t)"
    using assms by (rule setUTCFullYear_Some)
  have day: "Day u = ?day"
    unfolding u using TimeWithinDay_bounds [of t] by (simp add: Day_MakeDate)
  have off: "0 \<le> DayFromMonth (MonthFromTime t) ?l + DateFromTime t - 1"
            "DayFromMonth (MonthFromTime t) ?l + DateFromTime t - 1 < 365 + ?l"
    using year_offset_bounds [of ?l t] by simp_all
  have len: "DayFromYear (y + 1) = DayFromYear y + 365 + ?l"
    using DayFromYear_Suc [of y] DaysInYear_ge [of y] DaysInYear_le [of y]
    by (simp add: DaysInYear_def)
  have "DayFromYear y \<le> Day u" "Day u < DayFromYear (y + 1)"
    unfolding day len MakeDay_month using off by simp_all
  then show ?thesis
    unfolding YearFromTime_def by (rule year_unique)
qed

text \<open>Moved to a later year, a date is later.\<close>

lemma setUTCFullYear_strict:
  assumes "y1 < y2" "setUTCFullYear (Some t) y1 = Some u1" "setUTCFullYear (Some t) y2 = Some u2"
  shows "u1 < u2"
proof -
  let ?m = "MonthFromTime t"
  let ?l1 = "if DaysInYear y1 = 366 then 1 else (0::int)"
  let ?l2 = "if DaysInYear y2 = 366 then 1 else (0::int)"
  have u1: "u1 = MakeDate (MakeDay y1 ?m (DateFromTime t)) (TimeWithinDay t)"
    using assms(2) by (rule setUTCFullYear_Some)
  have u2: "u2 = MakeDate (MakeDay y2 ?m (DateFromTime t)) (TimeWithinDay t)"
    using assms(3) by (rule setUTCFullYear_Some)
  have gap: "DayFromYear y1 + 365 \<le> DayFromYear y2"
    using DayFromYear_gap [of y1 y2] assms(1) by simp
  have "DayFromMonth ?m ?l1 \<le> DayFromMonth ?m ?l2 + 1"
    using DayFromMonth_leap [of ?m] by simp
  then have "MakeDay y1 ?m (DateFromTime t) < MakeDay y2 ?m (DateFromTime t)"
    unfolding MakeDay_month using gap by simp
  then show ?thesis
    unfolding u1 u2 MakeDate_def msPerDay_def by simp
qed

section \<open>Facts about the collaborators and the coercion\<close>

lemma seq_int_contract: "int_contract example_faker"
proof -
  have "\<exists>r. fst (seq_int (Some lo) (Some hi) s) = Inr (Some r) \<and> lo \<le> r \<and> r \<le> hi"
    if le: "lo \<le> hi" for lo hi :: int and s :: "int list"
  proof -
    define x where "x = (case s of [] \<Rightarrow> 0 | x # _ \<Rightarrow> x)"
    have pos: "0 < hi - lo + 1"
      using le by simp
    have "0 \<le> x mod (hi - lo + 1)" "x mod (hi - lo + 1) < hi - lo + 1"
      using pos by (rule pos_mod_sign, rule pos_mod_bound)
    then have "lo \<le> lo + x mod (hi - lo + 1)" "lo + x mod (hi - lo + 1) \<le> hi"
      by simp_all
    moreover have "fst (seq_int (Some lo) (Some hi) s) = Inr (Some (lo + x mod (hi - lo + 1)))"
      using le by (simp add: seq_int_def x_def)
    ultimately show ?thesis
      by simp
  qed
  then show ?thesis
    by (simp add: int_contract_def example_faker_def)
qed

lemma seq_choice_contract: "choice_contract example_faker"
proof -
  have "\<exists>x \<in> set xs. fst (seq_choice xs s) = Inr x"
    if ne: "xs \<noteq> []" for xs :: "string list" and s :: "int list"
  proof -
    define i where "i = (case s of [] \<Rightarrow> 0 | x # _ \<Rightarrow> x) mod int (length xs)"
    have pos: "0 < int (length xs)"
      using ne by simp
    have "0 \<le> i" "i < int (length xs)"
      unfolding i_def using pos by simp_all
    then have "nat i < length xs"
      by simp
    then have "xs ! nat i \<in> set xs"
      by simp
    moreover have "fst (seq_choice xs s) = Inr (xs ! nat i)"
      using ne by (simp add: seq_choice_def i_def)
    ultimately show ?thesis
      by simp
  qed
  then show ?thesis
    by (simp add: choice_contract_def example_faker_def)
qed

lemma int_contract_draw:
  assumes "int_contract F" "lo \<le> hi"
  obtains r s' where "number_int F (Some lo) (Some hi) s = (Inr (Some r), s')" "lo \<le> r" "r \<le> hi"
proof -
  obtain r where r: "fst (number_int F (Some lo) (Some hi) s) = Inr (Some r)" "lo \<le> r" "r \<le> hi"
    using assms unfolding int_contract_def by blast
  have "number_int F (Some lo) (Some hi) s = (Inr (Some r), snd (number_int F (Some lo) (Some hi) s))"
    using r(1) by (simp add: prod_eq_iff)
  then show thesis
    using r that by blast
qed


lemma ToIntegerOrInfinity_le: "q \<le> of_int n \<Longrightarrow> ToIntegerOrInfinity q \<le> n"
  unfolding ToIntegerOrInfinity_def by (auto simp: ceiling_le_iff floor_le_iff)

lemma ToIntegerOrInfinity_ge: "of_int n \<le> q \<Longrightarrow> n \<le> ToIntegerOrInfinity q"
  unfolding ToIntegerOrInfinity_def by (auto simp: le_ceiling_iff le_floor_iff)

lemma TimeClip_number_Some:
  assumes "TimeClip_number q = Some t"
  shows "t = ToIntegerOrInfinity q \<and> \<bar>t\<bar> \<le> 8640000000000000"
proof -
  have t: "t = ToIntegerOrInfinity q" and q: "\<bar>q\<bar> \<le> 8640000000000000"
    using assms by (simp_all add: TimeClip_number_def split: if_splits)
  have "q \<le> of_int 8640000000000000"
    using q by simp
  then have hi: "ToIntegerOrInfinity q \<le> 8640000000000000"
    by (rule ToIntegerOrInfinity_le)
  have "of_int (- 8640000000000000) \<le> q"
    using q by simp
  then have lo: "- 8640000000000000 \<le> ToIntegerOrInfinity q"
    by (rule ToIntegerOrInfinity_ge)
  show ?thesis
    using t hi lo by simp
qed

text \<open>A converted date is valid: its time value is within the range of time values.\<close>

lemma toDate_range: "toDate F v name = Inr t \<Longrightarrow> \<bar>t\<bar> \<le> 8640000000000000"
  unfolding toDate_def new_Date_def
  by (auto split: option.splits date_input.splits simp: bind_eq_Some_conv
      dest: TimeClip_Some TimeClip_number_Some)

lemma toDate_Number:
  "toDate F (Number n) name =
    (if \<bar>n\<bar> \<le> 8640000000000000 then Inr (ToIntegerOrInfinity n) else Inl (InvalidDateError name))"
  by (simp add: toDate_def new_Date_def TimeClip_number_def)

lemma new_Date_number_Some:
  "\<bar>r\<bar> \<le> 8640000000000000 \<Longrightarrow> new_Date_number (Some r) = Some r"
  by (simp add: new_Date_number_def TimeClip_def)

lemma between_returns:
  assumes "int_contract F" "truthy from" "truthy to"
    and "toDate F from ''from'' = Inr a" "toDate F to ''to'' = Inr b" "a \<le> b"
  shows "\<exists>r s'. between F from to s = (Inr (Some r), s') \<and> a \<le> r \<and> r \<le> b"
proof -
  obtain r s' where r: "number_int F (Some a) (Some b) s = (Inr (Some r), s')" "a \<le> r" "r \<le> b"
    using int_contract_draw [OF assms(1) assms(6)] by blast
  have "\<bar>a\<bar> \<le> 8640000000000000" "\<bar>b\<bar> \<le> 8640000000000000"
    using assms(4,5) by (auto dest: toDate_range)
  then have "\<bar>r\<bar> \<le> 8640000000000000"
    using r(2,3) by simp
  then have "new_Date_number (Some r) = Some r"
    by (rule new_Date_number_Some)
  then have "between F from to s = (Inr (Some r), s')"
    using assms r(1) by (simp add: between_def)
  then show ?thesis
    using r(2,3) by blast
qed


section \<open>The range sampler\<close>

text \<open>
  C1. A call of \<^verbatim>\<open>between\<close> whose two bounds are present (they pass the check of lines
  180 to 184, which asks for truthy values) and coercible (\<^verbatim>\<open>toDate\<close> converts them to
  the instants \<open>fromMs\<close> and \<open>toMs\<close>) fails with InvalidRangeError exactly when
  \<open>fromMs > toMs\<close>; otherwise it returns a valid date whose instant \<open>r\<close> satisfies
  \<open>fromMs \<le> r \<le> toMs\<close>. The random collaborator is any that keeps the contract of
  \<^verbatim>\<open>randomInt\<close>; that the draw is uniform is a property of the collaborator.
\<close>

theorem between_range:
  assumes "int_contract F" "truthy from" "truthy to"
    and "toDate F from ''from'' = Inr fromMs" "toDate F to ''to'' = Inr toMs"
  shows "(fst (between F from to s) = Inl InvalidRangeError \<longleftrightarrow> fromMs > toMs)
       \<and> (fromMs > toMs \<longrightarrow> between F from to s = (Inl InvalidRangeError, s))
       \<and> (\<not> fromMs > toMs \<longrightarrow>
            (\<exists>r s'. between F from to s = (Inr (Some r), s') \<and> fromMs \<le> r \<and> r \<le> toMs))"
proof (cases "fromMs > toMs")
  case True
  then have "between F from to s = (Inl InvalidRangeError, s)"
    using assms by (simp add: between_def)
  then show ?thesis
    using True by simp
next
  case False
  then have "fromMs \<le> toMs"
    by simp
  then obtain r s' where "between F from to s = (Inr (Some r), s')" "fromMs \<le> r" "r \<le> toMs"
    using between_returns [OF assms] by blast
  then show ?thesis
    using False by auto
qed

theorem between_range_witness:
  "int_contract example_faker
   \<and> truthy (String ''2020-01-01T00:00:00.000Z'' :: int option date_input)
   \<and> truthy (Number 1577836800005 :: int option date_input)
   \<and> toDate example_faker (String ''2020-01-01T00:00:00.000Z'') ''from'' = Inr 1577836800000
   \<and> toDate example_faker (Number 1577836800005) ''to'' = Inr 1577836800005
   \<and> between example_faker (String ''2020-01-01T00:00:00.000Z'') (Number 1577836800005) [9]
       = (Inr (Some 1577836800003), [])
   \<and> between example_faker (Number 1577836800005) (String ''2020-01-01T00:00:00.000Z'') [9]
       = (Inl InvalidRangeError, [9])"
proof -
  have c: "int_contract example_faker"
    by (rule seq_int_contract)
  have t: "truthy (String ''2020-01-01T00:00:00.000Z'' :: int option date_input)"
      "truthy (Number 1577836800005 :: int option date_input)"
    by simp_all
  have a: "toDate example_faker (String ''2020-01-01T00:00:00.000Z'') ''from'' = Inr 1577836800000"
    by (simp add: toDate_def new_Date_def example_faker_def TimeClip_def)
  have b: "toDate example_faker (Number 1577836800005) ''to'' = Inr 1577836800005"
    by (simp add: toDate_Number ToIntegerOrInfinity_def)
  have a': "toDate example_faker (String ''2020-01-01T00:00:00.000Z'') ''to'' = Inr 1577836800000"
    by (simp add: toDate_def new_Date_def example_faker_def TimeClip_def)
  have b': "toDate example_faker (Number 1577836800005) ''from'' = Inr 1577836800005"
    by (simp add: toDate_Number ToIntegerOrInfinity_def)
  have v: "between example_faker (String ''2020-01-01T00:00:00.000Z'') (Number 1577836800005) [9]
       = (Inr (Some 1577836800003), [])"
    using a b by (simp add: between_def example_faker_def seq_int_def new_Date_number_def TimeClip_def)
  have "between example_faker (Number 1577836800005) (String ''2020-01-01T00:00:00.000Z'') [9]
       = (Inl InvalidRangeError, [9])"
    using between_range [OF c t(2) t(1) b' a', of "[9]"] by simp
  then show ?thesis
    using c t a b v between_range [OF c t a b, of "[9]"] by simp
qed

text \<open>
  C3. \<^verbatim>\<open>between\<close> and \<^verbatim>\<open>betweens\<close> fail with MissingBoundsError whenever
  \<^verbatim>\<open>from\<close> or \<^verbatim>\<open>to\<close> is omitted or undefined, null, or the number 0: the epoch
  as a number is taken for a missing bound. The call fails before any coercion or draw:
  whatever the other bound is, also one that no coercion accepts, the error is this one and
  the random source is where it was.
\<close>

theorem missing_bounds:
  assumes "b = Undefined \<or> b = Null \<or> b = Number 0"
  shows "between F b to s = (Inl MissingBoundsError, s)
       \<and> between F from b s = (Inl MissingBoundsError, s)
       \<and> betweens F b to count s = (Inl MissingBoundsError, s)
       \<and> betweens F from b count s = (Inl MissingBoundsError, s)"
  using assms by (auto simp: between_def betweens_def)

theorem missing_bounds_witness:
  "between example_faker (Number 0) (String ''no date'') [7] = (Inl MissingBoundsError, [7])
   \<and> between example_faker (Number 5) (Number 0) [7] = (Inl MissingBoundsError, [7])
   \<and> betweens example_faker (Number 0) (String ''no date'') (Some (Fixed 2)) [7]
       = (Inl MissingBoundsError, [7])
   \<and> betweens example_faker (Number 5) (Number 0) None [7] = (Inl MissingBoundsError, [7])"
  using missing_bounds [where b = "Number 0" and F = example_faker and to = "String ''no date''"
      and s = "[7]" and ?from = "Number 5" and count = "Some (Fixed 2)"]
    missing_bounds [where b = "Number 0" and F = example_faker and to = "Number 5"
      and s = "[7]" and ?from = "Number 5" and count = None]
  by simp

section \<open>The single-window policies\<close>

text \<open>
  C2, as the specification states it, fails: the near boundary of the window is not one
  millisecond from the reference. On a draw that reaches the near boundary \<open>ref - 1\<close> of
  the stated window of \<^verbatim>\<open>past\<close>, the code, run on the same draw, returns another
  instant.
\<close>

theorem policy_windows_counterexample:
  "past example_faker (Some 1) (Number 2000) [31535999999] = (Inr (Some (- 31535997002)), [])
   \<and> between example_faker (Number (2000 - 1 * 365 * 86400000)) (Number (2000 - 1)) [31535999999]
       = (Inr (Some 1999), [])"
  by (simp add: past_def between_def refDate_or_default_def toDate_Number ToIntegerOrInfinity_def
      example_faker_def seq_int_def new_Date_number_def TimeClip_def)

text \<open>
  C2, amended. For every reference instant \<open>ref\<close> and every \<open>years > 0\<close> and
  \<open>days > 0\<close> the policies forward these windows to the sampler: \<^verbatim>\<open>past\<close> the window
  from \<open>ref - years * 365 d\<close> to \<open>ref - 1000\<close>, \<^verbatim>\<open>future\<close> from \<open>ref + 1000\<close> to
  \<open>ref + years * 365 d\<close>, \<^verbatim>\<open>recent\<close> from \<open>ref - days * 86400000\<close> to
  \<open>ref - 1000\<close>, \<^verbatim>\<open>soon\<close> from \<open>ref + 1000\<close> to \<open>ref + days * 86400000\<close>. The near
  boundary is one second, 1000 milliseconds, from the reference. The years and the days
  are any positive numbers, fractions among them.
\<close>

theorem policy_windows:
  assumes "toDate F (refDate_or_default F refDate) ''refDate'' = Inr ref"
    and "0 < years" "0 < days"
  shows "past F (Some years) refDate s =
           between F (Number (of_int ref - years * 365 * 86400000)) (Number (of_int ref - 1000)) s
       \<and> future F (Some years) refDate s =
           between F (Number (of_int ref + 1000)) (Number (of_int ref + years * 365 * 86400000)) s
       \<and> recent F (Some days) refDate s =
           between F (Number (of_int ref - days * 86400000)) (Number (of_int ref - 1000)) s
       \<and> soon F (Some days) refDate s =
           between F (Number (of_int ref + 1000)) (Number (of_int ref + days * 86400000)) s"
  using assms by (simp add: past_def future_def recent_def soon_def mult.commute)

theorem policy_windows_witness:
  "toDate example_faker (refDate_or_default example_faker Undefined) ''refDate'' = Inr 1577836800000
   \<and> past example_faker (Some 2) Undefined [5] =
       between example_faker (Number (1577836800000 - 2 * 365 * 86400000)) (Number (1577836800000 - 1000)) [5]
   \<and> soon example_faker (Some 3) Undefined [5] =
       between example_faker (Number (1577836800000 + 1000)) (Number (1577836800000 + 3 * 86400000)) [5]"
proof -
  have r: "toDate example_faker (refDate_or_default example_faker Undefined) ''refDate'' = Inr 1577836800000"
    by (simp add: toDate_def new_Date_def refDate_or_default_def example_faker_def TimeClip_def)
  show ?thesis
    using r policy_windows [OF r, of 2 3 "[5]"] by simp
qed




section \<open>Several dates at once\<close>

lemma repeat_n_between:
  assumes "int_contract F" "truthy from" "truthy to"
    and "toDate F from ''from'' = Inr a" "toDate F to ''to'' = Inr b" "a \<le> b"
  shows "\<exists>rs s'. repeat_n n (between F from to) s = (Inr (map Some rs), s')
           \<and> length rs = n \<and> (\<forall>r \<in> set rs. a \<le> r \<and> r \<le> b)"
proof (induction n arbitrary: s)
  case 0
  have "repeat_n 0 (between F from to) s = (Inr (map Some []), s)"
    by simp
  then show ?case
    by fastforce
next
  case (Suc n)
  obtain r s1 where r: "between F from to s = (Inr (Some r), s1)" "a \<le> r" "r \<le> b"
    using between_returns [OF assms] by blast
  obtain rs s2 where rs: "repeat_n n (between F from to) s1 = (Inr (map Some rs), s2)"
      "length rs = n" "\<forall>r \<in> set rs. a \<le> r \<and> r \<le> b"
    using Suc.IH by blast
  have "repeat_n (Suc n) (between F from to) s = (Inr (map Some (r # rs)), s2)"
    using r(1) rs(1) by simp
  moreover have "length (r # rs) = Suc n"
    using rs(2) by simp
  moreover have "\<forall>x \<in> set (r # rs). a \<le> x \<and> x \<le> b"
    using r(2,3) rs(3) by simp
  ultimately show ?case
    by blast
qed

text \<open>On valid dates the sort by \<^verbatim>\<open>a.getTime() - b.getTime()\<close> is the sort of the instants.\<close>

lemma insert_by_Some: "insert_by js_minus (Some x) (map Some ys) = map Some (insort x ys)"
  by (induction ys) (simp_all add: js_minus_def)

lemma array_sort_Some: "array_sort js_minus (map Some rs) = map Some (sort rs)"
proof (induction rs)
  case Nil
  show ?case
    by (simp add: array_sort_def)
next
  case (Cons r rs)
  have "array_sort js_minus (map Some (r # rs)) = insert_by js_minus (Some r) (array_sort js_minus (map Some rs))"
    by (simp add: array_sort_def)
  then show ?case
    using Cons.IH by (simp add: insert_by_Some sort_key_def)
qed

text \<open>
  C6. For every pair of bounds that are present and coercible, to the instants
  \<open>a \<le> b\<close>, and every count that resolves to \<open>n\<close>, \<^verbatim>\<open>betweens\<close> returns exactly
  \<open>n\<close> valid dates (none when \<open>n\<close> is negative), each within \<open>a\<close> and \<open>b\<close>, in
  non-decreasing order. Every date is a draw of its own over the same window, so the same
  instant may come more than once.
\<close>

theorem betweens_sorted:
  assumes "int_contract F" "truthy from" "truthy to"
    and "toDate F from ''from'' = Inr a" "toDate F to ''to'' = Inr b" "a \<le> b"
    and "rangeToNumber F (case count_opt of None \<Rightarrow> Fixed 3 | Some c \<Rightarrow> c) s = (Inr (Some n), s0)"
  shows "\<exists>rs s'. betweens F from to count_opt s = (Inr (map Some rs), s')
           \<and> length rs = nat n \<and> (\<forall>r \<in> set rs. a \<le> r \<and> r \<le> b) \<and> sorted rs"
proof -
  obtain rs s' where rs: "repeat_n (nat n) (between F from to) s0 = (Inr (map Some rs), s')"
      "length rs = nat n" "\<forall>r \<in> set rs. a \<le> r \<and> r \<le> b"
    using repeat_n_between [OF assms(1-6)] by blast
  have "betweens F from to count_opt s = (Inr (array_sort js_minus (map Some rs)), s')"
    using assms(2,3,7) rs(1) by (simp add: betweens_def multiple_def)
  then have "betweens F from to count_opt s = (Inr (map Some (sort rs)), s')"
    by (simp add: array_sort_Some)
  moreover have "length (sort rs) = nat n"
    using rs(2) by simp
  moreover have "\<forall>r \<in> set (sort rs). a \<le> r \<and> r \<le> b"
    using rs(3) by simp
  moreover have "sorted (sort rs)"
    by simp
  ultimately show ?thesis
    by blast
qed

theorem betweens_sorted_witness:
  "int_contract example_faker
   \<and> truthy (Number 5 :: int option date_input) \<and> truthy (Number 10 :: int option date_input)
   \<and> toDate example_faker (Number 5) ''from'' = Inr 5
   \<and> toDate example_faker (Number 10) ''to'' = Inr 10
   \<and> rangeToNumber example_faker (case None of None \<Rightarrow> Fixed 3 | Some c \<Rightarrow> c) [4, 1, 4, 8] = (Inr (Some 3), [4, 1, 4, 8])
   \<and> betweens example_faker (Number 5) (Number 10) None [4, 1, 4, 8] = (Inr [Some 6, Some 9, Some 9], [8])
   \<and> (\<exists>rs s'. betweens example_faker (Number 5) (Number 10) None [4, 1, 4, 8] = (Inr (map Some rs), s')
           \<and> length rs = nat 3 \<and> (\<forall>r \<in> set rs. 5 \<le> r \<and> r \<le> 10) \<and> sorted rs)"
proof -
  have c: "int_contract example_faker"
    by (rule seq_int_contract)
  have t: "truthy (Number 5 :: int option date_input)" "truthy (Number 10 :: int option date_input)"
    by simp_all
  have a: "toDate example_faker (Number 5) ''from'' = Inr 5"
    by (simp add: toDate_Number ToIntegerOrInfinity_def)
  have b: "toDate example_faker (Number 10) ''to'' = Inr 10"
    by (simp add: toDate_Number ToIntegerOrInfinity_def)
  have le: "(5::int) \<le> 10"
    by simp
  have n: "rangeToNumber example_faker (case None of None \<Rightarrow> Fixed 3 | Some c \<Rightarrow> c) [4, 1, 4, 8]
      = (Inr (Some 3), [4, 1, 4, 8])"
    by (simp add: rangeToNumber_def)
  have v: "betweens example_faker (Number 5) (Number 10) None [4, 1, 4, 8] = (Inr [Some 6, Some 9, Some 9], [8])"
    by code_simp
  show ?thesis
    using c t a b n v betweens_sorted [OF c t a b le n] by simp
qed

section \<open>Month and weekday names\<close>

text \<open>
  C8. \<^verbatim>\<open>month\<close> and \<^verbatim>\<open>weekday\<close> read the variant that the specification
  describes, for every pair of flags (an omitted flag is false): the base variant is
  \<^verbatim>\<open>abbr\<close> when \<^verbatim>\<open>abbreviated\<close> is true and \<^verbatim>\<open>wide\<close> otherwise, and its context
  counterpart takes its place only when \<^verbatim>\<open>context\<close> is true and the table defines the
  counterpart. In particular \<^verbatim>\<open>month({abbreviated: true, context: true})\<close> on a table
  without \<^verbatim>\<open>abbr_context\<close>, whose \<^verbatim>\<open>abbr\<close> list \<open>xs\<close> is not empty, returns an
  element of \<open>xs\<close> and raises no error.
\<close>

theorem variant_resolution:
  "month F abbreviated context s =
     (case assertLocaleData (entry_get (date_month F)
         (spec_variant (date_month F) (case abbreviated of None \<Rightarrow> False | Some b \<Rightarrow> b)
            (case context of None \<Rightarrow> False | Some b \<Rightarrow> b))) of
        Inl e \<Rightarrow> (Inl e, s)
      | Inr vs \<Rightarrow> arrayElement F vs s)
   \<and> weekday F abbreviated context s =
     (case assertLocaleData (entry_get (date_weekday F)
         (spec_variant (date_weekday F) (case abbreviated of None \<Rightarrow> False | Some b \<Rightarrow> b)
            (case context of None \<Rightarrow> False | Some b \<Rightarrow> b))) of
        Inl e \<Rightarrow> (Inl e, s)
      | Inr vs \<Rightarrow> arrayElement F vs s)
   \<and> (choice_contract F \<and> abbr_context (date_month F) = None \<and> abbr (date_month F) = Some xs
        \<and> xs \<noteq> [] \<longrightarrow>
      (\<exists>x \<in> set xs. \<exists>s'. month F (Some True) (Some True) s = (Inr x, s')))"
proof -
  have m: "month_type F abbreviated context =
      spec_variant (date_month F) (case abbreviated of None \<Rightarrow> False | Some b \<Rightarrow> b)
        (case context of None \<Rightarrow> False | Some b \<Rightarrow> b)"
    by (simp add: month_type_def spec_variant_def Let_def)
  have w: "weekday_type F abbreviated context =
      spec_variant (date_weekday F) (case abbreviated of None \<Rightarrow> False | Some b \<Rightarrow> b)
        (case context of None \<Rightarrow> False | Some b \<Rightarrow> b)"
    by (simp add: weekday_type_def spec_variant_def Let_def)
  have p: "\<exists>x \<in> set xs. \<exists>s'. month F (Some True) (Some True) s = (Inr x, s')"
    if c: "choice_contract F" and n: "abbr_context (date_month F) = None"
      and a: "abbr (date_month F) = Some xs" and ne: "xs \<noteq> []"
  proof -
    obtain x where x: "x \<in> set xs" "fst (arrayElement F xs s) = Inr x"
      using c ne unfolding choice_contract_def by blast
    have "assertLocaleData (Some xs) = Inr xs"
      using ne by (cases xs) (simp_all add: assertLocaleData_def)
    then have "month F (Some True) (Some True) s = arrayElement F xs s"
      using n a by (simp add: month_def month_type_def)
    then have "month F (Some True) (Some True) s = (Inr x, snd (arrayElement F xs s))"
      using x(2) by (simp add: prod_eq_iff)
    then show ?thesis
      using x(1) by blast
  qed
  show ?thesis
    using m w p by (simp add: month_def weekday_def Let_def)
qed

theorem variant_resolution_witness:
  "choice_contract example_faker
   \<and> abbr_context (date_month example_faker) = None
   \<and> abbr (date_month example_faker) = Some [''Jan'', ''Feb'', ''Mar'']
   \<and> month example_faker (Some True) (Some True) [4] = (Inr ''Feb'', [])
   \<and> (\<exists>x \<in> set [''Jan'', ''Feb'', ''Mar'']. \<exists>s'. month example_faker (Some True) (Some True) [4] = (Inr x, s'))"
proof -
  have c: "choice_contract example_faker"
    by (rule seq_choice_contract)
  have n: "abbr_context (date_month example_faker) = None"
    by (simp add: example_faker_def example_month_def)
  have a: "abbr (date_month example_faker) = Some [''Jan'', ''Feb'', ''Mar'']"
    by (simp add: example_faker_def example_month_def)
  have v: "month example_faker (Some True) (Some True) [4] = (Inr ''Feb'', [])"
    by code_simp
  show ?thesis
    using c n a v variant_resolution [of example_faker "Some True" "Some True" "[4]" "[''Jan'', ''Feb'', ''Mar'']"]
    by simp
qed

section \<open>Birthdates\<close>

lemma setUTCFullYear_Day:
  assumes "setUTCFullYear (Some t) y = Some u"
  shows "Day u = DayFromYear y
           + DayFromMonth (MonthFromTime t) (if DaysInYear y = 366 then 1 else 0) + DateFromTime t - 1"
    and "TimeWithinDay u = TimeWithinDay t"
proof -
  have u: "u = MakeDate (MakeDay y (MonthFromTime t) (DateFromTime t)) (TimeWithinDay t)"
    using assms by (rule setUTCFullYear_Some)
  show "Day u = DayFromYear y
           + DayFromMonth (MonthFromTime t) (if DaysInYear y = 366 then 1 else 0) + DateFromTime t - 1"
    unfolding u using TimeWithinDay_bounds [of t] by (simp add: Day_MakeDate MakeDay_month)
  show "TimeWithinDay u = TimeWithinDay t"
    unfolding u using TimeWithinDay_bounds [of t] by (simp add: TimeWithinDay_MakeDate)
qed

lemma setUTCFullYear_DayWithinYear:
  assumes "setUTCFullYear (Some t) y = Some u"
  shows "DayWithinYear u =
           DayFromMonth (MonthFromTime t) (if DaysInYear y = 366 then 1 else 0) + DateFromTime t - 1"
    and "InLeapYear u = (if DaysInYear y = 366 then 1 else 0)"
  using setUTCFullYear_Day(1) [OF assms] setUTCFullYear_year [OF assms]
  by (simp_all add: DayWithinYear_def InLeapYear_def)

text \<open>The two dates that the year mode starts from: 2 January 1900 and 30 December 1900.\<close>

lemma Date_UTC_jan2:
  "new_Date_number (Date_UTC 0 0 2) = Some (- 2208902400000)"
  "MonthFromTime (- 2208902400000) = 0" "DateFromTime (- 2208902400000) = 2"
  "TimeWithinDay (- 2208902400000) = 0"
  by code_simp+

lemma Date_UTC_dec30:
  "new_Date_number (Date_UTC 0 11 30) = Some (- 2177625600000)"
  "MonthFromTime (- 2177625600000) = 11" "DateFromTime (- 2177625600000) = 30"
  "TimeWithinDay (- 2177625600000) = 0"
  by code_simp+

lemma jan2_of_year:
  assumes "setUTCFullYear (Some (- 2208902400000)) y = Some u"
  shows "YearFromTime u = y \<and> MonthFromTime u = 0 \<and> DateFromTime u = 2 \<and> TimeWithinDay u = 0
       \<and> Day u = DayFromYear y + 1"
proof -
  have d: "DayWithinYear u = 1"
    using setUTCFullYear_DayWithinYear(1) [OF assms] by (simp add: Date_UTC_jan2 DayFromMonth_def)
  have m: "MonthFromTime u = 0"
    unfolding MonthFromTime_def Let_def d by simp
  have "DateFromTime u = 2"
    unfolding DateFromTime_def Let_def m d by simp
  then show ?thesis
    using m setUTCFullYear_year [OF assms] setUTCFullYear_Day [OF assms]
    by (simp add: Date_UTC_jan2 DayFromMonth_def)
qed

lemma dec30_of_year:
  assumes "setUTCFullYear (Some (- 2177625600000)) y = Some u"
  shows "YearFromTime u = y \<and> MonthFromTime u = 11 \<and> DateFromTime u = 30 \<and> TimeWithinDay u = 0
       \<and> Day u = DayFromYear y + 363 + (if DaysInYear y = 366 then 1 else 0)"
proof -
  let ?l = "if DaysInYear y = 366 then 1 else (0::int)"
  have d: "DayWithinYear u = 363 + ?l"
    using setUTCFullYear_DayWithinYear(1) [OF assms] by (simp add: Date_UTC_dec30 DayFromMonth_def)
  have l: "InLeapYear u = ?l"
    using setUTCFullYear_DayWithinYear(2) [OF assms] by simp
  have m: "MonthFromTime u = 11"
    unfolding MonthFromTime_def Let_def d l by simp
  have "DateFromTime u = 30"
    unfolding DateFromTime_def Let_def m d l by simp
  then show ?thesis
    using m setUTCFullYear_year [OF assms] setUTCFullYear_Day [OF assms]
    by (simp add: Date_UTC_dec30 DayFromMonth_def)
qed

lemma time_of_day: "t = Day t * msPerDay + TimeWithinDay t"
  unfolding Day_def TimeWithinDay_def by simp

lemma birthdate_draw:
  assumes "int_contract F"
    and "toDate F (refDate_or_default F refDate) ''refDate'' = Inr date"
    and "birthdate_bounds (case mode_opt of None \<Rightarrow> Year | Some m \<Rightarrow> m) omin omax date = (Some lo, Some hi)"
    and "lo \<le> hi" "\<bar>lo\<bar> \<le> 8640000000000000" "\<bar>hi\<bar> \<le> 8640000000000000"
  shows "\<exists>r s'. birthdate F omin omax mode_opt refDate s = (Inr (Some r), s') \<and> lo \<le> r \<and> r \<le> hi"
proof -
  obtain r s' where r: "number_int F (Some lo) (Some hi) s = (Inr (Some r), s')" "lo \<le> r" "r \<le> hi"
    using int_contract_draw [OF assms(1,4)] by blast
  have "\<bar>r\<bar> \<le> 8640000000000000"
    using r(2,3) assms(5,6) by simp
  then have "new_Date_number (Some r) = Some r"
    by (rule new_Date_number_Some)
  then have "birthdate F omin omax mode_opt refDate s = (Inr (Some r), s')"
    using assms(2,3,4) r(1) by (simp add: birthdate_def js_lt_def)
  then show ?thesis
    using r(2,3) by blast
qed

lemma setUTCFullYear_range: "setUTCFullYear tv y = Some u \<Longrightarrow> \<bar>u\<bar> \<le> 8640000000000000"
  unfolding setUTCFullYear_def Let_def by (auto dest: TimeClip_Some)

lemma birthdate_bounds_Age:
  assumes "\<bar>date\<bar> \<le> 8640000000000000"
  shows "birthdate_bounds Age omin omax date =
    (setUTCFullYear (Some date) (YearFromTime date - (case omax of None \<Rightarrow> 80 | Some m \<Rightarrow> m) - 1),
     setUTCFullYear (Some date) (YearFromTime date - (case omin of None \<Rightarrow> 18 | Some m \<Rightarrow> m)))"
  using assms by (simp add: birthdate_bounds_def new_Date_number_Some Let_def)

lemma birthdate_bounds_Year:
  "birthdate_bounds Year omin omax date =
    (setUTCFullYear (Some (- 2208902400000)) (case omin of None \<Rightarrow> YearFromTime date - 80 | Some m \<Rightarrow> m),
     setUTCFullYear (Some (- 2177625600000)) (case omax of None \<Rightarrow> YearFromTime date - 19 | Some m \<Rightarrow> m))"
  by (simp add: birthdate_bounds_def Date_UTC_jan2 Date_UTC_dec30 Let_def)

lemma toDate_number_int_update [simp]:
  "toDate (F\<lparr>number_int := g\<rparr>) v name = toDate F v name"
  by (cases v) (simp_all add: toDate_def new_Date_def)

lemma refDate_or_default_number_int_update [simp]:
  "refDate_or_default (F\<lparr>number_int := g\<rparr>) v = refDate_or_default F v"
  by (cases v) (simp_all add: refDate_or_default_def)

text \<open>
  C4, as stated, fails. With \<^verbatim>\<open>min: 18\<close>, \<^verbatim>\<open>max: 65\<close> and the reference
  2020-01-01T00:00:00.000Z the draw of the lower bound returns 1954-01-01T00:00:00.000Z:
  the birth year 2020 - 65 - 1 is reached, and the reference year minus this birth year is
  66, not within 18 and 65. Nor is there a window for every reference instant: at the early
  end of the range of time values both bounds are NaN.
\<close>

theorem birthdate_age_window_counterexample:
  "birthdate example_faker (Some 18) (Some 65) (Some Age) (String ''2020-01-01T00:00:00.000Z'') [0]
     = (Inr (Some (- 504921600000)), [])
   \<and> YearFromTime 1577836800000 - YearFromTime (- 504921600000) = 66
   \<and> birthdate_bounds Age (Some 18) (Some 65) (- 8640000000000000) = (None, None)"
  by code_simp

text \<open>
  C4, amended. In mode \<^verbatim>\<open>age\<close>, for every reference instant \<open>date\<close>, of UTC year
  \<open>refYear\<close>, the bounds are the reference instant with its UTC year set to
  \<open>refYear - (max ?? 80) - 1\<close> and to \<open>refYear - (min ?? 18)\<close>. Whenever both are time
  values, \<open>lo\<close> and \<open>hi\<close>, and \<open>min ?? 18 \<le> max ?? 80\<close>, \<^verbatim>\<open>birthdate\<close> returns
  an instant \<open>r\<close> with \<open>lo \<le> r \<le> hi\<close>; the birth years \<open>refYear - (max ?? 80) - 1\<close>
  and \<open>refYear - (min ?? 18)\<close> are both reached, by the draws of the lower and of the
  upper bound; and the reference year minus the birth year lies within \<open>min ?? 18\<close> and
  \<open>(max ?? 80) + 1\<close>: with \<^verbatim>\<open>min: 18\<close> and \<^verbatim>\<open>max: 65\<close>, within 18 and 66. That the
  draw is uniform is a property of the random collaborator.
\<close>

theorem birthdate_age_window:
  assumes "int_contract F"
    and "toDate F (refDate_or_default F refDate) ''refDate'' = Inr date"
    and "a = (case omax of None \<Rightarrow> 80 | Some m \<Rightarrow> m)" "b = (case omin of None \<Rightarrow> 18 | Some m \<Rightarrow> m)"
    and "b \<le> a"
    and "birthdate_bounds Age omin omax date = (Some lo, Some hi)"
  shows "setUTCFullYear (Some date) (YearFromTime date - a - 1) = Some lo
       \<and> setUTCFullYear (Some date) (YearFromTime date - b) = Some hi
       \<and> (\<exists>r s'. birthdate F omin omax (Some Age) refDate s = (Inr (Some r), s')
             \<and> lo \<le> r \<and> r \<le> hi
             \<and> b \<le> YearFromTime date - YearFromTime r \<and> YearFromTime date - YearFromTime r \<le> a + 1)
       \<and> fst (birthdate (F\<lparr>number_int := \<lambda>l h s. (Inr l, s)\<rparr>) omin omax (Some Age) refDate s) = Inr (Some lo)
       \<and> YearFromTime lo = YearFromTime date - a - 1
       \<and> fst (birthdate (F\<lparr>number_int := \<lambda>l h s. (Inr h, s)\<rparr>) omin omax (Some Age) refDate s) = Inr (Some hi)
       \<and> YearFromTime hi = YearFromTime date - b"
proof -
  have valid: "\<bar>date\<bar> \<le> 8640000000000000"
    using assms(2) by (rule toDate_range)
  have lo: "setUTCFullYear (Some date) (YearFromTime date - a - 1) = Some lo"
    and hi: "setUTCFullYear (Some date) (YearFromTime date - b) = Some hi"
    using assms(3,4,6) birthdate_bounds_Age [OF valid, of omin omax] by simp_all
  have ylo: "YearFromTime lo = YearFromTime date - a - 1"
    using lo by (rule setUTCFullYear_year)
  have yhi: "YearFromTime hi = YearFromTime date - b"
    using hi by (rule setUTCFullYear_year)
  have lt: "lo < hi"
    using assms(5) by (intro setUTCFullYear_strict [OF _ lo hi]) simp
  have rlo: "\<bar>lo\<bar> \<le> 8640000000000000" and rhi: "\<bar>hi\<bar> \<le> 8640000000000000"
    using lo hi by (auto dest: setUTCFullYear_range)
  have le: "lo \<le> hi"
    using lt by simp
  obtain r s' where r: "birthdate F omin omax (Some Age) refDate s = (Inr (Some r), s')"
      "lo \<le> r" "r \<le> hi"
    using birthdate_draw [OF assms(1,2), of "Some Age" omin omax lo hi s] assms(6) le rlo rhi
    by auto
  have "YearFromTime lo \<le> YearFromTime r" "YearFromTime r \<le> YearFromTime hi"
    using r(2,3) by (simp_all add: YearFromTime_mono)
  then have yr: "b \<le> YearFromTime date - YearFromTime r" "YearFromTime date - YearFromTime r \<le> a + 1"
    using ylo yhi by simp_all
  have dlo: "fst (birthdate (F\<lparr>number_int := \<lambda>l h s. (Inr l, s)\<rparr>) omin omax (Some Age) refDate s)
      = Inr (Some lo)"
    using assms(2,6) le rlo by (simp add: birthdate_def js_lt_def new_Date_number_Some)
  have dhi: "fst (birthdate (F\<lparr>number_int := \<lambda>l h s. (Inr h, s)\<rparr>) omin omax (Some Age) refDate s)
      = Inr (Some hi)"
    using assms(2,6) le rhi by (simp add: birthdate_def js_lt_def new_Date_number_Some)
  show ?thesis
    using lo hi r yr dlo dhi ylo yhi by blast
qed

theorem birthdate_age_window_witness:
  "int_contract example_faker
   \<and> toDate example_faker (refDate_or_default example_faker (String ''2020-01-01T00:00:00.000Z'')) ''refDate''
       = Inr 1577836800000
   \<and> birthdate_bounds Age (Some 18) (Some 65) 1577836800000 = (Some (- 504921600000), Some 1009843200000)
   \<and> YearFromTime 1577836800000 = 2020
   \<and> (\<exists>r s'. birthdate example_faker (Some 18) (Some 65) (Some Age) (String ''2020-01-01T00:00:00.000Z'') [77]
               = (Inr (Some r), s')
             \<and> - 504921600000 \<le> r \<and> r \<le> 1009843200000
             \<and> 18 \<le> 2020 - YearFromTime r \<and> 2020 - YearFromTime r \<le> 66)
   \<and> YearFromTime (- 504921600000) = 1954
   \<and> YearFromTime 1009843200000 = 2002"
proof -
  have c: "int_contract example_faker"
    by (rule seq_int_contract)
  have d: "toDate example_faker (refDate_or_default example_faker (String ''2020-01-01T00:00:00.000Z'')) ''refDate''
       = Inr 1577836800000"
    by (simp add: toDate_def new_Date_def refDate_or_default_def example_faker_def TimeClip_def)
  have bd: "birthdate_bounds Age (Some 18) (Some 65) 1577836800000 = (Some (- 504921600000), Some 1009843200000)"
    by code_simp
  have y: "YearFromTime 1577836800000 = 2020"
    by code_simp
  have a: "(65::int) = (case Some 65 of None \<Rightarrow> 80 | Some m \<Rightarrow> m)"
      "(18::int) = (case Some 18 of None \<Rightarrow> 18 | Some m \<Rightarrow> m)" "(18::int) \<le> 65"
    by simp_all
  show ?thesis
    using c d bd y birthdate_age_window [OF c d a bd, of "[77]"] by simp
qed

text \<open>
  C5, as stated, fails: not every year has a second of January or a thirtieth of December
  among the time values. For the year 300000 \<^verbatim>\<open>setUTCFullYear\<close> returns NaN for both
  bounds, and the sampler is called without an interval.
\<close>

theorem birthdate_year_window_counterexample:
  "birthdate_bounds Year (Some 300000) (Some 300000) 0 = (None, None)"
  by code_simp

text \<open>
  C5, amended. In mode \<^verbatim>\<open>year\<close>, the default mode, the bounds are built from the second
  day of January of the year \<open>a = min ?? refYear - 80\<close> and the thirtieth day of December
  of the year \<open>b = max ?? refYear - 19\<close>, both at midnight UTC. Whenever both are time
  values, \<open>lo\<close> and \<open>hi\<close>, and \<open>a \<le> b\<close>, \<^verbatim>\<open>birthdate\<close> returns an instant
  between \<open>lo\<close> and \<open>hi\<close>, whose UTC calendar year lies within \<open>a\<close> and \<open>b\<close>.
\<close>

theorem birthdate_year_window:
  assumes "int_contract F"
    and "toDate F (refDate_or_default F refDate) ''refDate'' = Inr date"
    and "mode_opt = None \<or> mode_opt = Some Year"
    and "a = (case omin of None \<Rightarrow> YearFromTime date - 80 | Some m \<Rightarrow> m)"
    and "b = (case omax of None \<Rightarrow> YearFromTime date - 19 | Some m \<Rightarrow> m)"
    and "a \<le> b"
    and "birthdate_bounds Year omin omax date = (Some lo, Some hi)"
  shows "YearFromTime lo = a \<and> MonthFromTime lo = 0 \<and> DateFromTime lo = 2 \<and> TimeWithinDay lo = 0
       \<and> YearFromTime hi = b \<and> MonthFromTime hi = 11 \<and> DateFromTime hi = 30 \<and> TimeWithinDay hi = 0
       \<and> (\<exists>r s'. birthdate F omin omax mode_opt refDate s = (Inr (Some r), s')
             \<and> lo \<le> r \<and> r \<le> hi \<and> a \<le> YearFromTime r \<and> YearFromTime r \<le> b)"
proof -
  have lo: "setUTCFullYear (Some (- 2208902400000)) a = Some lo"
    and hi: "setUTCFullYear (Some (- 2177625600000)) b = Some hi"
    using assms(4,5,7) birthdate_bounds_Year [of omin omax date] by simp_all
  have jan: "YearFromTime lo = a \<and> MonthFromTime lo = 0 \<and> DateFromTime lo = 2 \<and> TimeWithinDay lo = 0
       \<and> Day lo = DayFromYear a + 1"
    using lo by (rule jan2_of_year)
  have dec: "YearFromTime hi = b \<and> MonthFromTime hi = 11 \<and> DateFromTime hi = 30 \<and> TimeWithinDay hi = 0
       \<and> Day hi = DayFromYear b + 363 + (if DaysInYear b = 366 then 1 else 0)"
    using hi by (rule dec30_of_year)
  have "DayFromYear a \<le> DayFromYear b"
    using DayFromYear_gap [of a b] assms(6) by simp
  then have "Day lo \<le> Day hi"
    using jan dec by simp
  then have "Day lo * msPerDay \<le> Day hi * msPerDay"
    by (simp add: msPerDay_def)
  then have le: "lo \<le> hi"
    using time_of_day [of lo] time_of_day [of hi] jan dec by simp
  have rlo: "\<bar>lo\<bar> \<le> 8640000000000000" and rhi: "\<bar>hi\<bar> \<le> 8640000000000000"
    using lo hi by (auto dest: setUTCFullYear_range)
  have m: "(case mode_opt of None \<Rightarrow> Year | Some m \<Rightarrow> m) = Year"
    using assms(3) by auto
  obtain r s' where r: "birthdate F omin omax mode_opt refDate s = (Inr (Some r), s')"
      "lo \<le> r" "r \<le> hi"
    using birthdate_draw [OF assms(1,2), of mode_opt omin omax lo hi s] assms(7) m le rlo rhi
    by auto
  have "YearFromTime lo \<le> YearFromTime r" "YearFromTime r \<le> YearFromTime hi"
    using r(2,3) by (simp_all add: YearFromTime_mono)
  then have "a \<le> YearFromTime r" "YearFromTime r \<le> b"
    using jan dec by simp_all
  then show ?thesis
    using jan dec r by blast
qed

theorem birthdate_year_window_witness:
  "int_contract example_faker
   \<and> toDate example_faker (refDate_or_default example_faker Undefined) ''refDate'' = Inr 1577836800000
   \<and> birthdate_bounds Year (Some 1900) (Some 2000) 1577836800000
       = (Some (- 2208902400000), Some 978134400000)
   \<and> YearFromTime (- 2208902400000) = 1900 \<and> YearFromTime 978134400000 = 2000
   \<and> MonthFromTime 978134400000 = 11 \<and> DateFromTime 978134400000 = 30
   \<and> (\<exists>r s'. birthdate example_faker (Some 1900) (Some 2000) None Undefined [123456789] = (Inr (Some r), s')
             \<and> - 2208902400000 \<le> r \<and> r \<le> 978134400000
             \<and> 1900 \<le> YearFromTime r \<and> YearFromTime r \<le> 2000)"
proof -
  have c: "int_contract example_faker"
    by (rule seq_int_contract)
  have d: "toDate example_faker (refDate_or_default example_faker Undefined) ''refDate'' = Inr 1577836800000"
    by (simp add: toDate_def new_Date_def refDate_or_default_def example_faker_def TimeClip_def)
  have bd: "birthdate_bounds Year (Some 1900) (Some 2000) 1577836800000
       = (Some (- 2208902400000), Some 978134400000)"
    by code_simp
  have m: "(None :: birthdate_mode option) = None \<or> None = Some Year"
    by simp
  have a: "(1900::int) = (case Some 1900 of None \<Rightarrow> YearFromTime 1577836800000 - 80 | Some m \<Rightarrow> m)"
      "(2000::int) = (case Some 2000 of None \<Rightarrow> YearFromTime 1577836800000 - 19 | Some m \<Rightarrow> m)"
      "(1900::int) \<le> 2000"
    by simp_all
  show ?thesis
    using c d bd birthdate_year_window [OF c d m a bd, of "[123456789]"] by simp
qed

text \<open>
  C9, as stated, fails: for a maximum age beyond the range of time values the minimum is
  NaN, which is not before anything. Here the reference is the epoch and the ages are 18
  and 300000.
\<close>

theorem birthdate_age_order_counterexample:
  "birthdate_bounds Age (Some 18) (Some 300000) 0 = (None, Some (- 568080000000))
   \<and> \<not> js_lt None (Some (- 568080000000))"
  by code_simp

text \<open>
  C9, amended. In mode \<^verbatim>\<open>age\<close>, whenever the minimum and the maximum age (or their
  defaults 18 and 80) satisfy \<open>min \<le> max\<close>, the check \<^verbatim>\<open>max < min\<close> of the two
  computed timestamps does not hold, so \<^verbatim>\<open>birthdate\<close> does not raise its
  InvalidRangeError and goes on to the draw; and whenever both timestamps are time values,
  the minimum instant is strictly before the maximum instant.
\<close>

theorem birthdate_age_order:
  assumes "toDate F (refDate_or_default F refDate) ''refDate'' = Inr date"
    and "(case omin of None \<Rightarrow> 18 | Some m \<Rightarrow> m) \<le> (case omax of None \<Rightarrow> 80 | Some m \<Rightarrow> m)"
    and "birthdate_bounds Age omin omax date = (min_t, max_t)"
  shows "\<not> js_lt max_t min_t
       \<and> birthdate F omin omax (Some Age) refDate s =
           (case number_int F min_t max_t s of
              (Inl e, s') \<Rightarrow> (Inl e, s')
            | (Inr r, s') \<Rightarrow> (Inr (new_Date_number r), s'))
       \<and> (\<forall>lo hi. min_t = Some lo \<and> max_t = Some hi \<longrightarrow> lo < hi)"
proof -
  have valid: "\<bar>date\<bar> \<le> 8640000000000000"
    using assms(1) by (rule toDate_range)
  let ?a = "case omax of None \<Rightarrow> 80 | Some m \<Rightarrow> m"
  let ?b = "case omin of None \<Rightarrow> 18 | Some m \<Rightarrow> m"
  have b: "min_t = setUTCFullYear (Some date) (YearFromTime date - ?a - 1)"
      "max_t = setUTCFullYear (Some date) (YearFromTime date - ?b)"
    using assms(3) birthdate_bounds_Age [OF valid, of omin omax] by simp_all
  have strict: "lo < hi" if "min_t = Some lo" "max_t = Some hi" for lo hi
  proof (rule setUTCFullYear_strict)
    show "YearFromTime date - ?a - 1 < YearFromTime date - ?b"
      using assms(2) by simp
    show "setUTCFullYear (Some date) (YearFromTime date - ?a - 1) = Some lo"
      using that(1) b(1) by simp
    show "setUTCFullYear (Some date) (YearFromTime date - ?b) = Some hi"
      using that(2) b(2) by simp
  qed
  have no: "\<not> js_lt max_t min_t"
  proof (cases min_t)
    case None
    then show ?thesis
      by (simp add: js_lt_def split: option.splits)
  next
    case lo: (Some lo)
    show ?thesis
    proof (cases max_t)
      case None
      then show ?thesis
        by (simp add: js_lt_def)
    next
      case (Some hi)
      then show ?thesis
        using strict [OF lo Some] lo by (simp add: js_lt_def)
    qed
  qed
  have "birthdate F omin omax (Some Age) refDate s =
           (case number_int F min_t max_t s of
              (Inl e, s') \<Rightarrow> (Inl e, s')
            | (Inr r, s') \<Rightarrow> (Inr (new_Date_number r), s'))"
    using assms(1,3) no by (simp add: birthdate_def)
  then show ?thesis
    using no strict by blast
qed

theorem birthdate_age_order_witness:
  "toDate example_faker (refDate_or_default example_faker Undefined) ''refDate'' = Inr 1577836800000
   \<and> (case None of None \<Rightarrow> 18 | Some m \<Rightarrow> m) \<le> (case None of None \<Rightarrow> (80::int) | Some m \<Rightarrow> m)
   \<and> birthdate_bounds Age None None 1577836800000 = (Some (- 978307200000), Some 1009843200000)
   \<and> \<not> js_lt (Some 1009843200000) (Some (- 978307200000))
   \<and> birthdate example_faker None None (Some Age) Undefined [5] = (Inr (Some (- 978307199995)), [])
   \<and> (- 978307200000 :: int) < 1009843200000"
proof -
  have d: "toDate example_faker (refDate_or_default example_faker Undefined) ''refDate'' = Inr 1577836800000"
    by (simp add: toDate_def new_Date_def refDate_or_default_def example_faker_def TimeClip_def)
  have a: "(case None of None \<Rightarrow> 18 | Some m \<Rightarrow> m) \<le> (case None of None \<Rightarrow> (80::int) | Some m \<Rightarrow> m)"
    by simp
  have bd: "birthdate_bounds Age None None 1577836800000 = (Some (- 978307200000), Some 1009843200000)"
    by code_simp
  have v: "number_int example_faker (Some (- 978307200000)) (Some 1009843200000) [5]
      = (Inr (Some (- 978307199995)), [])"
    by (simp add: example_faker_def seq_int_def)
  have n: "new_Date_number (Some (- 978307199995)) = Some (- 978307199995)"
    by (simp add: new_Date_number_Some)
  show ?thesis
    using d a bd birthdate_age_order [OF d a bd, of "[5]"] v n by simp
qed

section \<open>Which dates a call writes to\<close>

lemma heap_get_old: "a < length h \<Longrightarrow> heap_get (h @ xs) a = heap_get h a"
  by (simp add: heap_get_def nth_append)

lemma heap_get_new: "heap_get (h @ [tv]) (length h) = tv"
  by (simp add: heap_get_def)

lemma heap_get_new2: "heap_get (h @ [u, tv]) (Suc (length h)) = tv"
  by (simp add: heap_get_def nth_append)

lemma prefix_heap_get: "prefix h h' \<Longrightarrow> a < length h \<Longrightarrow> heap_get h' a = heap_get h a"
  by (auto simp: prefix_def heap_get_old)

lemma new_Date_h_eq: "new_Date_h F v h = (length h, h @ [new_Date F (deref h v)])"
  by (simp add: new_Date_h_def alloc_def)

text \<open>\<^verbatim>\<open>toDate\<close> makes a date of its own and writes to no other.\<close>

lemma toDate_h_eq:
  "toDate_h F v name h =
    (case toDate F (deref h v) name of Inl e \<Rightarrow> Inl e | Inr t \<Rightarrow> Inr (length h),
     h @ [new_Date F (deref h v)])"
  by (simp add: toDate_h_def new_Date_h_eq heap_get_new toDate_def split: option.splits)

lemma toDate_Inr_new_Date: "toDate F v name = Inr t \<Longrightarrow> new_Date F v = Some t"
  by (simp add: toDate_def split: option.splits)

lemma setUTCFullYear_h_new:
  "setUTCFullYear_h (length h) y (h @ [tv]) =
    (case y of None \<Rightarrow> None | Some k \<Rightarrow> setUTCFullYear tv k,
     h @ [case y of None \<Rightarrow> None | Some k \<Rightarrow> setUTCFullYear tv k])"
  by (cases y) (simp_all add: setUTCFullYear_h_def heap_get_new Let_def)

lemma setUTCFullYear_h_new2:
  "setUTCFullYear_h (Suc (length h)) y (h @ [u, tv]) =
    (case y of None \<Rightarrow> None | Some k \<Rightarrow> setUTCFullYear tv k,
     h @ [u, case y of None \<Rightarrow> None | Some k \<Rightarrow> setUTCFullYear tv k])"
  by (cases y) (simp_all add: setUTCFullYear_h_def heap_get_new2 Let_def list_update_append)

text \<open>
  The bounds of \<^verbatim>\<open>birthdate\<close> over the store are those of the model without
  addresses, and the store grows by the two dates that \<^verbatim>\<open>setUTCFullYear\<close> has
  written to.
\<close>

lemma birthdate_bounds_h_eq:
  assumes "date < length h1" "heap_get h1 date = Some t" "\<bar>t\<bar> \<le> 8640000000000000"
  shows "birthdate_bounds_h F mode omin omax date h1 =
    (fst (birthdate_bounds mode omin omax t), snd (birthdate_bounds mode omin omax t),
     h1 @ [fst (birthdate_bounds mode omin omax t), snd (birthdate_bounds mode omin omax t)])"
proof -
  have c: "new_Date F (DateObj (Some t)) = Some t"
    using assms(3) by (simp add: new_Date_def TimeClip_def)
  have g: "heap_get (h1 @ [u]) date = Some t" for u
    using assms(1,2) by (simp add: heap_get_old)
  show ?thesis
  proof (cases mode)
    case Age
    then show ?thesis
      using assms c g
      by (simp add: birthdate_bounds_h_def birthdate_bounds_def new_Date_h_eq deref_def
          setUTCFullYear_h_new setUTCFullYear_h_new2 js_minus_def Let_def new_Date_number_Some)
  next
    case Year
    then show ?thesis
      using assms
      by (cases omin; cases omax)
        (simp_all add: birthdate_bounds_h_def birthdate_bounds_def alloc_def
          setUTCFullYear_h_new setUTCFullYear_h_new2 js_minus_def Let_def)
  qed
qed

lemma prefix_append2: "prefix h h1 \<Longrightarrow> prefix h (h1 @ xs)"
  by (auto simp: prefix_def)

lemma refDate_or_default_h_prefix: "prefix h (snd (refDate_or_default_h F refDate h))"
  by (cases refDate) (simp_all add: refDate_or_default_h_def alloc_def)

lemma toDate_h_prefix: "prefix h (snd (toDate_h F v name h))"
  by (simp add: toDate_h_eq)

lemma between_h_prefix: "prefix h (fst (snd (between_h F from to h s)))"
  by (simp add: between_h_def toDate_h_eq alloc_def Let_def prefix_append2
      split: sum.splits prod.splits option.splits)

lemma repeat_h_prefix:
  assumes "\<And>h s. prefix h (fst (snd (f h s)))"
  shows "prefix h (fst (snd (repeat_h n f h s)))"
proof (induction n arbitrary: h s)
  case 0
  show ?case
    by simp
next
  case (Suc n)
  obtain r h1 s1 where f: "f h s = (r, h1, s1)"
    by (cases "f h s") auto
  have p1: "prefix h h1"
    using assms [of h s] f by simp
  show ?case
  proof (cases r)
    case (Inl e)
    then show ?thesis
      using f p1 by simp
  next
    case (Inr x)
    obtain r2 h2 s2 where g: "repeat_h n f h1 s1 = (r2, h2, s2)"
      by (cases "repeat_h n f h1 s1") auto
    have "prefix h1 h2"
      using Suc.IH [of h1 s1] g by simp
    then have "prefix h h2"
      using p1 by (rule prefix_order.trans [rotated])
    then show ?thesis
      using f g Inr by (cases r2) simp_all
  qed
qed

lemma policy_h_prefix:
  assumes "\<And>d h1. prefix h1 (fst (snd (k d h1)))"
  shows "prefix h (fst (snd
    (case refDate_or_default_h F refDate h of
       (rd, h0) \<Rightarrow>
         (case toDate_h F rd ''refDate'' h0 of
            (Inl e, h1) \<Rightarrow> (Inl e, h1, s)
          | (Inr d, h1) \<Rightarrow> k d h1))))"
proof -
  obtain rd h0 where r: "refDate_or_default_h F refDate h = (rd, h0)"
    by (cases "refDate_or_default_h F refDate h") auto
  obtain res h1 where t: "toDate_h F rd ''refDate'' h0 = (res, h1)"
    by (cases "toDate_h F rd ''refDate'' h0") auto
  have p0: "prefix h h0"
    using refDate_or_default_h_prefix [of h F refDate] r by simp
  have p1: "prefix h0 h1"
    using toDate_h_prefix [of h0 F rd "''refDate''"] t by simp
  have p: "prefix h h1"
    using p0 p1 by (rule prefix_order.trans)
  show ?thesis
  proof (cases res)
    case (Inl e)
    then show ?thesis
      using r t p by simp
  next
    case (Inr d)
    have "prefix h1 (fst (snd (k d h1)))"
      by (rule assms)
    then have "prefix h (fst (snd (k d h1)))"
      using p by (rule prefix_order.trans [rotated])
    then show ?thesis
      using r t Inr by simp
  qed
qed

lemma birthdate_bounds_h_prefix:
  "prefix h1 (snd (snd (birthdate_bounds_h F mode omin omax date h1)))"
  by (simp add: birthdate_bounds_h_def new_Date_h_eq alloc_def setUTCFullYear_h_new
      setUTCFullYear_h_new2 Let_def)

lemma birthdate_tail_prefix:
  "prefix h1 (fst (snd
     (case birthdate_bounds_h F mode omin omax date h1 of
        (min_t, max_t, h5) \<Rightarrow>
          if js_lt max_t min_t then (Inl InvalidRangeError, h5, s)
          else
            (case number_int F min_t max_t s of
               (Inl e, s') \<Rightarrow> (Inl e, h5, s')
             | (Inr r, s') \<Rightarrow>
                 (case alloc (new_Date_number r) h5 of (a, h6) \<Rightarrow> (Inr a, h6, s'))))))"
proof -
  obtain mn mx h5 where b: "birthdate_bounds_h F mode omin omax date h1 = (mn, mx, h5)"
    by (cases "birthdate_bounds_h F mode omin omax date h1") auto
  have "prefix h1 h5"
    using birthdate_bounds_h_prefix [of h1 F mode omin omax date] b by simp
  then show ?thesis
    using b by (simp add: alloc_def prefix_append2 split: sum.splits prod.splits)
qed

text \<open>
  C10. No generator writes to a date of the caller. Every date that exists when a call
  starts (the dates of the store \<open>h\<close>, among them any that the caller passes as
  \<^verbatim>\<open>refDate\<close>, \<^verbatim>\<open>from\<close> or \<^verbatim>\<open>to\<close>) holds the same time value when the call
  ends, whether it returns or fails: the store after the call begins with \<open>h\<close>.
  \<^verbatim>\<open>toDate\<close> returns a date of its own, at an address that \<open>h\<close> does not have. In
  \<^verbatim>\<open>birthdate\<close> not even the converted reference date changes: the store after the call
  begins with the store in which \<^verbatim>\<open>toDate\<close> has returned, so each
  \<^verbatim>\<open>setUTCFullYear\<close> has written to a copy.
\<close>

theorem caller_dates_unchanged:
  "prefix h (snd (toDate_h F v name h))
   \<and> (fst (toDate_h F v name h) = Inl (InvalidDateError name) \<or> fst (toDate_h F v name h) = Inr (length h))
   \<and> prefix h (fst (snd (anytime_h F refDate h s)))
   \<and> prefix h (fst (snd (past_h F years refDate h s)))
   \<and> prefix h (fst (snd (future_h F years refDate h s)))
   \<and> prefix h (fst (snd (between_h F from to h s)))
   \<and> prefix h (fst (snd (betweens_h F from to count h s)))
   \<and> prefix h (fst (snd (recent_h F days refDate h s)))
   \<and> prefix h (fst (snd (soon_h F days refDate h s)))
   \<and> prefix h (fst (snd (birthdate_h F omin omax mode refDate h s)))
   \<and> prefix (snd (toDate_h F (fst (refDate_or_default_h F refDate h)) ''refDate''
                 (snd (refDate_or_default_h F refDate h))))
       (fst (snd (birthdate_h F omin omax mode refDate h s)))"
proof -
  have t: "prefix h (snd (toDate_h F v name h))"
    by (rule toDate_h_prefix)
  have f: "fst (toDate_h F v name h) = Inl (InvalidDateError name) \<or> fst (toDate_h F v name h) = Inr (length h)"
    by (simp add: toDate_h_eq toDate_def split: option.splits)
  have a: "prefix h (fst (snd (anytime_h F refDate h s)))"
    unfolding anytime_h_def Let_def by (rule policy_h_prefix) (rule between_h_prefix)
  have p: "prefix h (fst (snd (past_h F years refDate h s)))"
  proof (cases "(case years of None \<Rightarrow> 1 | Some y \<Rightarrow> y) \<le> 0")
    case True
    then show ?thesis
      by (simp add: past_h_def)
  next
    case False
    then show ?thesis
      unfolding past_h_def Let_def by (simp only: if_False) (rule policy_h_prefix, rule between_h_prefix)
  qed
  have u: "prefix h (fst (snd (future_h F years refDate h s)))"
  proof (cases "(case years of None \<Rightarrow> 1 | Some y \<Rightarrow> y) \<le> 0")
    case True
    then show ?thesis
      by (simp add: future_h_def)
  next
    case False
    then show ?thesis
      unfolding future_h_def Let_def by (simp only: if_False) (rule policy_h_prefix, rule between_h_prefix)
  qed
  have b: "prefix h (fst (snd (between_h F from to h s)))"
    by (rule between_h_prefix)
  have bs: "prefix h (fst (snd (betweens_h F from to count h s)))"
  proof -
    let ?c = "case count of None \<Rightarrow> Fixed 3 | Some c \<Rightarrow> c"
    obtain rn s0 where c: "rangeToNumber F ?c s = (rn, s0)"
      by (cases "rangeToNumber F ?c s") auto
    have rp: "prefix h (fst (snd (repeat_h n (between_h F from to) h s0)))" for n
      by (rule repeat_h_prefix) (rule between_h_prefix)
    show ?thesis
    proof (cases rn)
      case (Inl e)
      then show ?thesis
        using c by (simp add: betweens_h_def Let_def)
    next
      case (Inr k)
      show ?thesis
      proof (cases k)
        case None
        then show ?thesis
          using c Inr by (simp add: betweens_h_def Let_def)
      next
        case (Some n)
        obtain r2 h2 s2 where g: "repeat_h (nat n) (between_h F from to) h s0 = (r2, h2, s2)"
          by (cases "repeat_h (nat n) (between_h F from to) h s0") auto
        have "prefix h h2"
          using rp [of "nat n"] g by simp
        then show ?thesis
          using c Inr Some g by (cases r2) (simp_all add: betweens_h_def Let_def)
      qed
    qed
  qed
  have r: "prefix h (fst (snd (recent_h F days refDate h s)))"
  proof (cases "(case days of None \<Rightarrow> 1 | Some y \<Rightarrow> y) \<le> 0")
    case True
    then show ?thesis
      by (simp add: recent_h_def)
  next
    case False
    then show ?thesis
      unfolding recent_h_def Let_def by (simp only: if_False) (rule policy_h_prefix, rule between_h_prefix)
  qed
  have n: "prefix h (fst (snd (soon_h F days refDate h s)))"
  proof (cases "(case days of None \<Rightarrow> 1 | Some y \<Rightarrow> y) \<le> 0")
    case True
    then show ?thesis
      by (simp add: soon_h_def)
  next
    case False
    then show ?thesis
      unfolding soon_h_def Let_def by (simp only: if_False) (rule policy_h_prefix, rule between_h_prefix)
  qed
  have bd: "prefix h (fst (snd (birthdate_h F omin omax mode refDate h s)))"
    unfolding birthdate_h_def Let_def by (rule policy_h_prefix) (rule birthdate_tail_prefix)
  have cp: "prefix (snd (toDate_h F (fst (refDate_or_default_h F refDate h)) ''refDate''
                 (snd (refDate_or_default_h F refDate h))))
       (fst (snd (birthdate_h F omin omax mode refDate h s)))"
  proof -
    obtain rd h0 where r: "refDate_or_default_h F refDate h = (rd, h0)"
      by (cases "refDate_or_default_h F refDate h") auto
    obtain res h1 where t: "toDate_h F rd ''refDate'' h0 = (res, h1)"
      by (cases "toDate_h F rd ''refDate'' h0") auto
    show ?thesis
    proof (cases res)
      case (Inl e)
      then show ?thesis
        using r t by (simp add: birthdate_h_def)
    next
      case (Inr d)
      then show ?thesis
        using r t birthdate_tail_prefix [where ?h1.0 = h1 and F = F and omin = omin and omax = omax
            and date = d and s = s and mode = "case mode of None \<Rightarrow> Year | Some m \<Rightarrow> m"]
        by (simp add: birthdate_h_def)
    qed
  qed
  show ?thesis
    using t f a p u b bs r n bd cp by blast
qed

theorem caller_dates_unchanged_witness:
  "birthdate_h example_faker (Some 18) (Some 65) (Some Age) (DateObj 0) [Some 1577836800000] [0]
     = (Inr 4,
        [Some 1577836800000, Some 1577836800000, Some (- 504921600000), Some 1009843200000,
         Some (- 504921600000)],
        [])
   \<and> prefix [Some 1577836800000]
       (fst (snd (birthdate_h example_faker (Some 18) (Some 65) (Some Age) (DateObj 0)
          [Some 1577836800000] [0])))
   \<and> prefix [Some 1577836800000, Some 1577836800000]
       (fst (snd (birthdate_h example_faker (Some 18) (Some 65) (Some Age) (DateObj 0)
          [Some 1577836800000] [0])))
   \<and> toDate_h example_faker (DateObj 0) ''refDate'' [Some 1577836800000]
       = (Inr 1, [Some 1577836800000, Some 1577836800000])
   \<and> prefix [Some 5, Some 10]
       (fst (snd (betweens_h example_faker (DateObj 0) (DateObj 1) None [Some 5, Some 10] [4, 1, 4, 8])))"
proof -
  have v: "birthdate_h example_faker (Some 18) (Some 65) (Some Age) (DateObj 0) [Some 1577836800000] [0]
     = (Inr 4,
        [Some 1577836800000, Some 1577836800000, Some (- 504921600000), Some 1009843200000,
         Some (- 504921600000)],
        [])"
    by code_simp
  have r: "refDate_or_default_h example_faker (DateObj 0) [Some 1577836800000]
      = (DateObj 0, [Some 1577836800000])"
    by (simp add: refDate_or_default_h_def)
  have t: "toDate_h example_faker (DateObj 0) ''refDate'' [Some 1577836800000]
       = (Inr 1, [Some 1577836800000, Some 1577836800000])"
    by code_simp
  show ?thesis
    using v r t
      caller_dates_unchanged [where h = "[Some 1577836800000]" and F = example_faker
        and refDate = "DateObj 0" and omin = "Some 18" and omax = "Some 65" and mode = "Some Age"
        and s = "[0]"]
      caller_dates_unchanged [where h = "[Some 5, Some 10]" and F = example_faker
        and ?from = "DateObj 0" and to = "DateObj 1" and count = None and s = "[4, 1, 4, 8]"]
    by simp
qed

section \<open>The two models agree\<close>

text \<open>
  Over the store, a call returns the address of a date; the time value at that address, and
  the state of the random source, are what the call returns in the model without
  addresses. This holds for every generator, whenever the dates that the caller passes
  exist.
\<close>

lemma truthy_deref: "truthy (deref h v) = truthy v"
  by (cases v) (simp_all add: deref_def)

lemma deref_append: "allocated h v \<Longrightarrow> deref (h @ xs) v = deref h v"
  by (cases v) (simp_all add: deref_def allocated_def heap_get_old)

lemma deref_as_input: "deref h (as_input (Some n)) = Number n"
  by (simp add: deref_def as_input_def)

lemma allocated_as_input: "allocated h (as_input n)"
  by (cases n) (simp_all add: allocated_def as_input_def)

lemma between_h_value:
  assumes "allocated h from" "allocated h to"
  shows "between F (deref h from) (deref h to) s =
    (map_sum id (heap_get (fst (snd (between_h F from to h s)))) (fst (between_h F from to h s)),
     snd (snd (between_h F from to h s)))"
proof (cases "\<not> truthy from \<or> \<not> truthy to")
  case True
  then show ?thesis
    by (auto simp: between_def between_h_def truthy_deref)
next
  case False
  then have tr: "truthy from" "truthy to"
    by simp_all
  show ?thesis
  proof (cases "toDate F (deref h from) ''from''")
    case (Inl e)
    then show ?thesis
      using tr by (simp add: between_def between_h_def truthy_deref toDate_h_eq)
  next
    case a: (Inr a)
    then have na: "new_Date F (deref h from) = Some a"
      by (rule toDate_Inr_new_Date)
    have d2: "deref (h @ [Some a]) to = deref h to"
      using assms(2) by (rule deref_append)
    show ?thesis
    proof (cases "toDate F (deref h to) ''to''")
      case (Inl e)
      then show ?thesis
        using tr a na d2 by (simp add: between_def between_h_def truthy_deref toDate_h_eq)
    next
      case b: (Inr b)
      then have nb: "new_Date F (deref h to) = Some b"
        by (rule toDate_Inr_new_Date)
      have g: "heap_get (h @ [Some a, Some b]) (length h) = Some a"
          "heap_get (h @ [Some a, Some b]) (Suc (length h)) = Some b"
        by (simp_all add: heap_get_def nth_append)
      show ?thesis
      proof (cases "b < a")
        case True
        then show ?thesis
          using tr a b na nb d2 g
          by (simp add: between_def between_h_def truthy_deref toDate_h_eq js_lt_def Let_def)
      next
        case False
        obtain r s' where n: "number_int F (Some a) (Some b) s = (r, s')"
          by (cases "number_int F (Some a) (Some b) s") auto
        have "heap_get (h @ [Some a, Some b, v]) (Suc (Suc (length h))) = v" for v
          by (simp add: heap_get_def nth_append)
        then show ?thesis
          using False tr a b na nb d2 g n
          by (cases r)
            (simp_all add: between_def between_h_def truthy_deref toDate_h_eq js_lt_def Let_def
              alloc_def)
      qed
    qed
  qed
qed

lemma refDate_or_default_h_value:
  assumes "allocated h refDate" "refDate_or_default_h F refDate h = (rd, h0)"
  shows "deref h0 rd = refDate_or_default F (deref h refDate) \<and> allocated h0 rd \<and> prefix h h0"
  using assms
  by (cases refDate)
    (auto simp: refDate_or_default_h_def refDate_or_default_def alloc_def deref_def allocated_def
      heap_get_new)

lemma policy_h_value:
  assumes "allocated h refDate"
    and "\<And>time. toDate F (refDate_or_default F (deref h refDate)) ''refDate'' = Inr time \<Longrightarrow>
           kv time = between F (Number (lo time)) (Number (hi time)) s"
    and "\<And>d h1. kh d h1 = between_h F (as_input (map_option lo (heap_get h1 d)))
           (as_input (map_option hi (heap_get h1 d))) h1 s"
  shows "(case toDate F (refDate_or_default F (deref h refDate)) ''refDate'' of
            Inl e \<Rightarrow> (Inl e, s) | Inr time \<Rightarrow> kv time) =
    (let res = (case refDate_or_default_h F refDate h of
                  (rd, h0) \<Rightarrow>
                    (case toDate_h F rd ''refDate'' h0 of
                       (Inl e, h1) \<Rightarrow> (Inl e, h1, s)
                     | (Inr d, h1) \<Rightarrow> kh d h1))
     in (map_sum id (heap_get (fst (snd res))) (fst res), snd (snd res)))"
proof -
  obtain rd h0 where r: "refDate_or_default_h F refDate h = (rd, h0)"
    by (cases "refDate_or_default_h F refDate h") auto
  have v: "deref h0 rd = refDate_or_default F (deref h refDate)"
    using refDate_or_default_h_value [OF assms(1) r] by simp
  show ?thesis
  proof (cases "toDate F (refDate_or_default F (deref h refDate)) ''refDate''")
    case (Inl e)
    then show ?thesis
      using r v by (simp add: toDate_h_eq Let_def)
  next
    case (Inr time)
    then have nd: "new_Date F (deref h0 rd) = Some time"
      using v by (simp add: toDate_Inr_new_Date)
    let ?h1 = "h0 @ [Some time]"
    have k: "kh (length h0) ?h1 = between_h F (as_input (Some (lo time))) (as_input (Some (hi time))) ?h1 s"
      by (simp add: assms(3) heap_get_new)
    have "between F (deref ?h1 (as_input (Some (lo time)))) (deref ?h1 (as_input (Some (hi time)))) s =
      (map_sum id (heap_get (fst (snd (between_h F (as_input (Some (lo time))) (as_input (Some (hi time))) ?h1 s))))
         (fst (between_h F (as_input (Some (lo time))) (as_input (Some (hi time))) ?h1 s)),
       snd (snd (between_h F (as_input (Some (lo time))) (as_input (Some (hi time))) ?h1 s)))"
      by (rule between_h_value) (rule allocated_as_input)+
    then show ?thesis
      using r v Inr nd k assms(2) [OF Inr] by (simp add: toDate_h_eq Let_def deref_as_input)
  qed
qed

lemma past_h_value:
  assumes "allocated h refDate"
  shows "past F years (deref h refDate) s =
    (map_sum id (heap_get (fst (snd (past_h F years refDate h s)))) (fst (past_h F years refDate h s)),
     snd (snd (past_h F years refDate h s)))"
proof (cases "(case years of None \<Rightarrow> 1 | Some y \<Rightarrow> y) \<le> 0")
  case True
  then show ?thesis
    by (simp add: past_def past_h_def)
next
  case False
  have e: "(case toDate F (refDate_or_default F (deref h refDate)) ''refDate'' of
            Inl e \<Rightarrow> (Inl e, s)
          | Inr time \<Rightarrow> between F (Number (of_int time - (case years of None \<Rightarrow> 1 | Some y \<Rightarrow> y) * 365 * 24 * 3600 * 1000)) (Number (of_int time - 1000)) s) =
    (let res = (case refDate_or_default_h F refDate h of
                  (rd, h0) \<Rightarrow>
                    (case toDate_h F rd ''refDate'' h0 of
                       (Inl e, h1) \<Rightarrow> (Inl e, h1, s)
                     | (Inr d, h1) \<Rightarrow>
                         between_h F (as_input (js_minus (map_option of_int (heap_get h1 d)) (Some ((case years of None \<Rightarrow> 1 | Some y \<Rightarrow> y) * 365 * 24 * 3600 * 1000))))
                           (as_input (js_minus (map_option of_int (heap_get h1 d)) (Some 1000))) h1 s))
     in (map_sum id (heap_get (fst (snd res))) (fst res), snd (snd res)))"
  proof (rule policy_h_value [OF assms, where lo = "\<lambda>time. of_int time - (case years of None \<Rightarrow> 1 | Some y \<Rightarrow> y) * 365 * 24 * 3600 * 1000"
        and hi = "\<lambda>time. of_int time - 1000"])
    show "between F (Number (of_int time - (case years of None \<Rightarrow> 1 | Some y \<Rightarrow> y) * 365 * 24 * 3600 * 1000)) (Number (of_int time - 1000)) s =
        between F (Number (of_int time - (case years of None \<Rightarrow> 1 | Some y \<Rightarrow> y) * 365 * 24 * 3600 * 1000)) (Number (of_int time - 1000)) s" for time
      by (rule refl)
    show "between_h F (as_input (js_minus (map_option of_int (heap_get h1 d)) (Some ((case years of None \<Rightarrow> 1 | Some y \<Rightarrow> y) * 365 * 24 * 3600 * 1000))))
           (as_input (js_minus (map_option of_int (heap_get h1 d)) (Some 1000))) h1 s =
         between_h F (as_input (map_option (\<lambda>time. of_int time - (case years of None \<Rightarrow> 1 | Some y \<Rightarrow> y) * 365 * 24 * 3600 * 1000) (heap_get h1 d)))
           (as_input (map_option (\<lambda>time. of_int time - 1000) (heap_get h1 d))) h1 s" for d h1
      by (cases "heap_get h1 d") (simp_all add: js_minus_def js_plus_def)
  qed
  from False e show ?thesis
    unfolding past_def past_h_def Let_def by (simp only: if_False)
qed

lemma future_h_value:
  assumes "allocated h refDate"
  shows "future F years (deref h refDate) s =
    (map_sum id (heap_get (fst (snd (future_h F years refDate h s)))) (fst (future_h F years refDate h s)),
     snd (snd (future_h F years refDate h s)))"
proof (cases "(case years of None \<Rightarrow> 1 | Some y \<Rightarrow> y) \<le> 0")
  case True
  then show ?thesis
    by (simp add: future_def future_h_def)
next
  case False
  have e: "(case toDate F (refDate_or_default F (deref h refDate)) ''refDate'' of
            Inl e \<Rightarrow> (Inl e, s)
          | Inr time \<Rightarrow> between F (Number (of_int time + 1000)) (Number (of_int time + (case years of None \<Rightarrow> 1 | Some y \<Rightarrow> y) * 365 * 24 * 3600 * 1000)) s) =
    (let res = (case refDate_or_default_h F refDate h of
                  (rd, h0) \<Rightarrow>
                    (case toDate_h F rd ''refDate'' h0 of
                       (Inl e, h1) \<Rightarrow> (Inl e, h1, s)
                     | (Inr d, h1) \<Rightarrow>
                         between_h F (as_input (js_plus (map_option of_int (heap_get h1 d)) (Some 1000)))
                           (as_input (js_plus (map_option of_int (heap_get h1 d)) (Some ((case years of None \<Rightarrow> 1 | Some y \<Rightarrow> y) * 365 * 24 * 3600 * 1000)))) h1 s))
     in (map_sum id (heap_get (fst (snd res))) (fst res), snd (snd res)))"
  proof (rule policy_h_value [OF assms, where lo = "\<lambda>time. of_int time + 1000"
        and hi = "\<lambda>time. of_int time + (case years of None \<Rightarrow> 1 | Some y \<Rightarrow> y) * 365 * 24 * 3600 * 1000"])
    show "between F (Number (of_int time + 1000)) (Number (of_int time + (case years of None \<Rightarrow> 1 | Some y \<Rightarrow> y) * 365 * 24 * 3600 * 1000)) s =
        between F (Number (of_int time + 1000)) (Number (of_int time + (case years of None \<Rightarrow> 1 | Some y \<Rightarrow> y) * 365 * 24 * 3600 * 1000)) s" for time
      by (rule refl)
    show "between_h F (as_input (js_plus (map_option of_int (heap_get h1 d)) (Some 1000)))
           (as_input (js_plus (map_option of_int (heap_get h1 d)) (Some ((case years of None \<Rightarrow> 1 | Some y \<Rightarrow> y) * 365 * 24 * 3600 * 1000)))) h1 s =
         between_h F (as_input (map_option (\<lambda>time. of_int time + 1000) (heap_get h1 d)))
           (as_input (map_option (\<lambda>time. of_int time + (case years of None \<Rightarrow> 1 | Some y \<Rightarrow> y) * 365 * 24 * 3600 * 1000) (heap_get h1 d))) h1 s" for d h1
      by (cases "heap_get h1 d") (simp_all add: js_minus_def js_plus_def)
  qed
  from False e show ?thesis
    unfolding future_def future_h_def Let_def by (simp only: if_False)
qed

lemma recent_h_value:
  assumes "allocated h refDate"
  shows "recent F days (deref h refDate) s =
    (map_sum id (heap_get (fst (snd (recent_h F days refDate h s)))) (fst (recent_h F days refDate h s)),
     snd (snd (recent_h F days refDate h s)))"
proof (cases "(case days of None \<Rightarrow> 1 | Some d \<Rightarrow> d) \<le> 0")
  case True
  then show ?thesis
    by (simp add: recent_def recent_h_def)
next
  case False
  have e: "(case toDate F (refDate_or_default F (deref h refDate)) ''refDate'' of
            Inl e \<Rightarrow> (Inl e, s)
          | Inr time \<Rightarrow> between F (Number (of_int time - (case days of None \<Rightarrow> 1 | Some d \<Rightarrow> d) * 24 * 3600 * 1000)) (Number (of_int time - 1000)) s) =
    (let res = (case refDate_or_default_h F refDate h of
                  (rd, h0) \<Rightarrow>
                    (case toDate_h F rd ''refDate'' h0 of
                       (Inl e, h1) \<Rightarrow> (Inl e, h1, s)
                     | (Inr d, h1) \<Rightarrow>
                         between_h F (as_input (js_minus (map_option of_int (heap_get h1 d)) (Some ((case days of None \<Rightarrow> 1 | Some d \<Rightarrow> d) * 24 * 3600 * 1000))))
                           (as_input (js_minus (map_option of_int (heap_get h1 d)) (Some 1000))) h1 s))
     in (map_sum id (heap_get (fst (snd res))) (fst res), snd (snd res)))"
  proof (rule policy_h_value [OF assms, where lo = "\<lambda>time. of_int time - (case days of None \<Rightarrow> 1 | Some d \<Rightarrow> d) * 24 * 3600 * 1000"
        and hi = "\<lambda>time. of_int time - 1000"])
    show "between F (Number (of_int time - (case days of None \<Rightarrow> 1 | Some d \<Rightarrow> d) * 24 * 3600 * 1000)) (Number (of_int time - 1000)) s =
        between F (Number (of_int time - (case days of None \<Rightarrow> 1 | Some d \<Rightarrow> d) * 24 * 3600 * 1000)) (Number (of_int time - 1000)) s" for time
      by (rule refl)
    show "between_h F (as_input (js_minus (map_option of_int (heap_get h1 d)) (Some ((case days of None \<Rightarrow> 1 | Some d \<Rightarrow> d) * 24 * 3600 * 1000))))
           (as_input (js_minus (map_option of_int (heap_get h1 d)) (Some 1000))) h1 s =
         between_h F (as_input (map_option (\<lambda>time. of_int time - (case days of None \<Rightarrow> 1 | Some d \<Rightarrow> d) * 24 * 3600 * 1000) (heap_get h1 d)))
           (as_input (map_option (\<lambda>time. of_int time - 1000) (heap_get h1 d))) h1 s" for d h1
      by (cases "heap_get h1 d") (simp_all add: js_minus_def js_plus_def)
  qed
  from False e show ?thesis
    unfolding recent_def recent_h_def Let_def by (simp only: if_False)
qed

lemma soon_h_value:
  assumes "allocated h refDate"
  shows "soon F days (deref h refDate) s =
    (map_sum id (heap_get (fst (snd (soon_h F days refDate h s)))) (fst (soon_h F days refDate h s)),
     snd (snd (soon_h F days refDate h s)))"
proof (cases "(case days of None \<Rightarrow> 1 | Some d \<Rightarrow> d) \<le> 0")
  case True
  then show ?thesis
    by (simp add: soon_def soon_h_def)
next
  case False
  have e: "(case toDate F (refDate_or_default F (deref h refDate)) ''refDate'' of
            Inl e \<Rightarrow> (Inl e, s)
          | Inr time \<Rightarrow> between F (Number (of_int time + 1000)) (Number (of_int time + (case days of None \<Rightarrow> 1 | Some d \<Rightarrow> d) * 24 * 3600 * 1000)) s) =
    (let res = (case refDate_or_default_h F refDate h of
                  (rd, h0) \<Rightarrow>
                    (case toDate_h F rd ''refDate'' h0 of
                       (Inl e, h1) \<Rightarrow> (Inl e, h1, s)
                     | (Inr d, h1) \<Rightarrow>
                         between_h F (as_input (js_plus (map_option of_int (heap_get h1 d)) (Some 1000)))
                           (as_input (js_plus (map_option of_int (heap_get h1 d)) (Some ((case days of None \<Rightarrow> 1 | Some d \<Rightarrow> d) * 24 * 3600 * 1000)))) h1 s))
     in (map_sum id (heap_get (fst (snd res))) (fst res), snd (snd res)))"
  proof (rule policy_h_value [OF assms, where lo = "\<lambda>time. of_int time + 1000"
        and hi = "\<lambda>time. of_int time + (case days of None \<Rightarrow> 1 | Some d \<Rightarrow> d) * 24 * 3600 * 1000"])
    show "between F (Number (of_int time + 1000)) (Number (of_int time + (case days of None \<Rightarrow> 1 | Some d \<Rightarrow> d) * 24 * 3600 * 1000)) s =
        between F (Number (of_int time + 1000)) (Number (of_int time + (case days of None \<Rightarrow> 1 | Some d \<Rightarrow> d) * 24 * 3600 * 1000)) s" for time
      by (rule refl)
    show "between_h F (as_input (js_plus (map_option of_int (heap_get h1 d)) (Some 1000)))
           (as_input (js_plus (map_option of_int (heap_get h1 d)) (Some ((case days of None \<Rightarrow> 1 | Some d \<Rightarrow> d) * 24 * 3600 * 1000)))) h1 s =
         between_h F (as_input (map_option (\<lambda>time. of_int time + 1000) (heap_get h1 d)))
           (as_input (map_option (\<lambda>time. of_int time + (case days of None \<Rightarrow> 1 | Some d \<Rightarrow> d) * 24 * 3600 * 1000) (heap_get h1 d))) h1 s" for d h1
      by (cases "heap_get h1 d") (simp_all add: js_minus_def js_plus_def)
  qed
  from False e show ?thesis
    unfolding soon_def soon_h_def Let_def by (simp only: if_False)
qed

lemma anytime_h_value:
  assumes "allocated h refDate"
  shows "anytime F (deref h refDate) s =
    (map_sum id (heap_get (fst (snd (anytime_h F refDate h s)))) (fst (anytime_h F refDate h s)),
     snd (snd (anytime_h F refDate h s)))"
proof -
  have e: "(case toDate F (refDate_or_default F (deref h refDate)) ''refDate'' of
            Inl e \<Rightarrow> (Inl e, s)
          | Inr time \<Rightarrow> between F (Number (of_int time - 1000 * 60 * 60 * 24 * 365)) (Number (of_int time + 1000 * 60 * 60 * 24 * 365)) s) =
    (let res = (case refDate_or_default_h F refDate h of
                  (rd, h0) \<Rightarrow>
                    (case toDate_h F rd ''refDate'' h0 of
                       (Inl e, h1) \<Rightarrow> (Inl e, h1, s)
                     | (Inr d, h1) \<Rightarrow>
                         between_h F (as_input (js_minus (map_option of_int (heap_get h1 d)) (Some (1000 * 60 * 60 * 24 * 365))))
                           (as_input (js_plus (map_option of_int (heap_get h1 d)) (Some (1000 * 60 * 60 * 24 * 365)))) h1 s))
     in (map_sum id (heap_get (fst (snd res))) (fst res), snd (snd res)))"
  proof (rule policy_h_value [OF assms, where lo = "\<lambda>time. of_int time - 1000 * 60 * 60 * 24 * 365"
        and hi = "\<lambda>time. of_int time + 1000 * 60 * 60 * 24 * 365"])
    show "between F (Number (of_int time - 1000 * 60 * 60 * 24 * 365)) (Number (of_int time + 1000 * 60 * 60 * 24 * 365)) s =
        between F (Number (of_int time - 1000 * 60 * 60 * 24 * 365)) (Number (of_int time + 1000 * 60 * 60 * 24 * 365)) s" for time
      by (rule refl)
    show "between_h F (as_input (js_minus (map_option of_int (heap_get h1 d)) (Some (1000 * 60 * 60 * 24 * 365))))
           (as_input (js_plus (map_option of_int (heap_get h1 d)) (Some (1000 * 60 * 60 * 24 * 365)))) h1 s =
         between_h F (as_input (map_option (\<lambda>time. of_int time - 1000 * 60 * 60 * 24 * 365) (heap_get h1 d)))
           (as_input (map_option (\<lambda>time. of_int time + 1000 * 60 * 60 * 24 * 365) (heap_get h1 d))) h1 s" for d h1
      by (cases "heap_get h1 d") (simp_all add: js_minus_def js_plus_def)
  qed
  from e show ?thesis
    unfolding anytime_def anytime_h_def Let_def by (simp only:)
qed

lemma birthdate_h_value:
  assumes "allocated h refDate"
  shows "birthdate F omin omax mode (deref h refDate) s =
    (map_sum id (heap_get (fst (snd (birthdate_h F omin omax mode refDate h s))))
       (fst (birthdate_h F omin omax mode refDate h s)),
     snd (snd (birthdate_h F omin omax mode refDate h s)))"
proof -
  let ?m = "case mode of None \<Rightarrow> Year | Some m \<Rightarrow> m"
  obtain rd h0 where r: "refDate_or_default_h F refDate h = (rd, h0)"
    by (cases "refDate_or_default_h F refDate h") auto
  have v: "deref h0 rd = refDate_or_default F (deref h refDate)"
    using refDate_or_default_h_value [OF assms r] by simp
  show ?thesis
  proof (cases "toDate F (refDate_or_default F (deref h refDate)) ''refDate''")
    case (Inl e)
    then show ?thesis
      using r v by (simp add: birthdate_def birthdate_h_def toDate_h_eq Let_def)
  next
    case (Inr t)
    then have nd: "new_Date F (deref h0 rd) = Some t"
      using v by (simp add: toDate_Inr_new_Date)
    have valid: "\<bar>t\<bar> \<le> 8640000000000000"
      using Inr by (rule toDate_range)
    let ?h1 = "h0 @ [Some t]"
    obtain mn mx where b: "birthdate_bounds ?m omin omax t = (mn, mx)"
      by (cases "birthdate_bounds ?m omin omax t") auto
    have bh: "birthdate_bounds_h F ?m omin omax (length h0) ?h1 = (mn, mx, ?h1 @ [mn, mx])"
      using birthdate_bounds_h_eq [of "length h0" ?h1 t F ?m omin omax] valid b
      by (simp add: heap_get_new)
    show ?thesis
    proof (cases "js_lt mx mn")
      case True
      then show ?thesis
        using r v Inr nd b bh by (simp add: birthdate_def birthdate_h_def toDate_h_eq Let_def)
    next
      case False
      obtain res s' where n: "number_int F mn mx s = (res, s')"
        by (cases "number_int F mn mx s") auto
      have "heap_get (h0 @ [Some t, mn, mx, x]) (Suc (Suc (Suc (length h0)))) = x" for x
        by (simp add: heap_get_def nth_append)
      then show ?thesis
        using False r v Inr nd b bh n
        by (cases res) (simp_all add: birthdate_def birthdate_h_def toDate_h_eq Let_def alloc_def)
    qed
  qed
qed

lemma deref_prefix: "allocated h v \<Longrightarrow> prefix h h' \<Longrightarrow> deref h' v = deref h v"
  by (auto simp: prefix_def deref_append)

lemma allocated_prefix: "allocated h v \<Longrightarrow> prefix h h' \<Longrightarrow> allocated h' v"
  by (cases v) (auto simp: allocated_def prefix_def)

lemma between_h_result:
  "between_h F from to h s = (Inr a, h', s') \<Longrightarrow> a < length h'"
  by (auto simp: between_h_def toDate_h_eq alloc_def Let_def
      split: if_splits sum.splits prod.splits)

lemma map_insert_by:
  "map g (insert_by (\<lambda>a b. cmp (g a) (g b)) x ys) = insert_by cmp (g x) (map g ys)"
  by (induction ys) simp_all

lemma map_array_sort:
  "map g (array_sort (\<lambda>a b. cmp (g a) (g b)) xs) = array_sort cmp (map g xs)"
  by (induction xs) (simp_all add: array_sort_def map_insert_by)

lemma repeat_h_value:
  assumes "allocated h from" "allocated h to"
  shows "prefix h h0 \<Longrightarrow>
    repeat_n n (between F (deref h from) (deref h to)) s =
      (map_sum id (map (heap_get (fst (snd (repeat_h n (between_h F from to) h0 s)))))
         (fst (repeat_h n (between_h F from to) h0 s)),
       snd (snd (repeat_h n (between_h F from to) h0 s)))"
proof (induction n arbitrary: h0 s)
  case 0
  show ?case
    by simp
next
  case (Suc n)
  have al: "allocated h0 from" "allocated h0 to"
    using assms Suc.prems by (auto intro: allocated_prefix)
  have de: "deref h0 from = deref h from" "deref h0 to = deref h to"
    using assms Suc.prems by (auto intro: deref_prefix)
  obtain r1 h1 s1 where b: "between_h F from to h0 s = (r1, h1, s1)"
    by (cases "between_h F from to h0 s") auto
  have v: "between F (deref h from) (deref h to) s = (map_sum id (heap_get h1) r1, s1)"
    using between_h_value [OF al, of F s] b de by simp
  show ?case
  proof (cases r1)
    case (Inl e)
    then show ?thesis
      using b v by simp
  next
    case (Inr a)
    have p1: "prefix h0 h1"
      using between_h_prefix [of h0 F "from" to s] b by simp
    then have p: "prefix h h1"
      using Suc.prems by (rule prefix_order.trans [rotated])
    obtain r2 h2 s2 where g: "repeat_h n (between_h F from to) h1 s1 = (r2, h2, s2)"
      by (cases "repeat_h n (between_h F from to) h1 s1") auto
    have ih: "repeat_n n (between F (deref h from) (deref h to)) s1 =
        (map_sum id (map (heap_get h2)) r2, s2)"
      using Suc.IH [OF p, of s1] g by (simp add: id_def)
    have "prefix h1 (fst (snd (repeat_h n (between_h F from to) h1 s1)))"
      by (rule repeat_h_prefix) (rule between_h_prefix)
    then have "prefix h1 h2"
      using g by simp
    moreover have "a < length h1"
      using b Inr by (auto dest: between_h_result)
    ultimately have "heap_get h2 a = heap_get h1 a"
      by (rule prefix_heap_get)
    then show ?thesis
      using b v Inr g ih by (cases r2) simp_all
  qed
qed

lemma betweens_h_value:
  assumes "allocated h from" "allocated h to"
  shows "betweens F (deref h from) (deref h to) count s =
    (map_sum id (map (heap_get (fst (snd (betweens_h F from to count h s)))))
       (fst (betweens_h F from to count h s)),
     snd (snd (betweens_h F from to count h s)))"
proof (cases "\<not> truthy from \<or> \<not> truthy to")
  case True
  then show ?thesis
    by (auto simp: betweens_def betweens_h_def truthy_deref)
next
  case False
  let ?c = "case count of None \<Rightarrow> Fixed 3 | Some c \<Rightarrow> c"
  obtain rn s0 where c: "rangeToNumber F ?c s = (rn, s0)"
    by (cases "rangeToNumber F ?c s") auto
  show ?thesis
  proof (cases rn)
    case (Inl e)
    then show ?thesis
      using False c by (simp add: betweens_def betweens_h_def multiple_def truthy_deref Let_def)
  next
    case (Inr k)
    show ?thesis
    proof (cases k)
      case None
      then show ?thesis
        using False c Inr
        by (simp add: betweens_def betweens_h_def multiple_def truthy_deref Let_def array_sort_def)
    next
      case (Some n)
      obtain r2 h2 s2 where g: "repeat_h (nat n) (between_h F from to) h s0 = (r2, h2, s2)"
        by (cases "repeat_h (nat n) (between_h F from to) h s0") auto
      have rv: "repeat_n (nat n) (between F (deref h from) (deref h to)) s0 =
          (map_sum id (map (heap_get h2)) r2, s2)"
        using repeat_h_value [OF assms, of h "nat n" F s0] g by simp
      show ?thesis
      proof (cases r2)
        case (Inl e)
        then show ?thesis
          using False c Inr Some g rv
          by (simp add: betweens_def betweens_h_def multiple_def truthy_deref Let_def)
      next
        case dates: (Inr dates)
        have "map (heap_get h2) (array_sort (\<lambda>a b. js_minus (heap_get h2 a) (heap_get h2 b)) dates)
            = array_sort js_minus (map (heap_get h2) dates)"
          by (rule map_array_sort)
        then show ?thesis
          using False c Inr Some g rv dates
          by (simp add: betweens_def betweens_h_def multiple_def truthy_deref Let_def)
      qed
    qed
  qed
qed

end
